theory Spec2Isabelle
  imports Complex_Main "HOL-Library.Sublist"
begin

section \<open>JavaScript strings\<close>

text \<open>
  A string is a list of 8-bit code units (the Latin-1 range of a JavaScript string; code
  units above it are not modelled).
  \<open>trim\<close> removes the WhiteSpace and LineTerminator code points of that range
  (TAB, LF, VT, FF, CR, SP, NBSP); \<open>toLowerCase\<close> maps \<open>A..Z\<close> and the Latin-1
  capitals \<open>0xC0..0xDE\<close> (without the multiplication sign \<open>0xD7\<close>) to their small letters.
\<close>

definition isWhiteSpace :: "char \<Rightarrow> bool" where
  "isWhiteSpace c = ((of_char c :: nat) \<in> {9, 10, 11, 12, 13, 32, 160})"

definition trim :: "string \<Rightarrow> string" where
  "trim s = rev (dropWhile isWhiteSpace (rev (dropWhile isWhiteSpace s)))"

definition toLowerChar :: "char \<Rightarrow> char" where
  "toLowerChar c =
     (let n = (of_char c :: nat)
      in if (65 \<le> n \<and> n \<le> 90) \<or> (192 \<le> n \<and> n \<le> 222 \<and> n \<noteq> 215)
         then char_of (n + 32) else c)"

definition toLowerCase :: "string \<Rightarrow> string" where
  "toLowerCase s = map toLowerChar s"

text \<open>\<open>s.includes(sub)\<close>: \<open>sub\<close> occurs in \<open>s\<close> as a contiguous run.\<close>

fun str_includes :: "string \<Rightarrow> string \<Rightarrow> bool" where
  "str_includes [] sub = (sub = [])"
| "str_includes (c # cs) sub = (prefix sub (c # cs) \<or> str_includes cs sub)"

text \<open>Truthiness of \<open>string | undefined\<close>: \<open>undefined\<close> and \<open>''\<close> are falsy.\<close>

fun truthy :: "string option \<Rightarrow> bool" where
  "truthy None = False"
| "truthy (Some s) = (s \<noteq> [])"

definition isQuote :: "char \<Rightarrow> bool" where
  "isQuote c = (c = CHR 0x22 \<or> c = CHR 0x27)"

text \<open>
  \<open>s.replace(/^["']|["']$/g, '')\<close>, as the scan of a global replace: at each index the
  pattern is tried, \<open>^["']\<close> matching a quote at the start of the input and \<open>["']$\<close> a
  quote that is its last character; a match is dropped and the scan goes on behind it,
  any other character is kept. \<open>atStart\<close> says that the index is 0.
\<close>

fun replaceScan :: "bool \<Rightarrow> string \<Rightarrow> string" where
  "replaceScan atStart [] = []"
| "replaceScan atStart (c # cs) =
     (if isQuote c \<and> (atStart \<or> cs = []) then replaceScan False cs
      else c # replaceScan False cs)"

definition stripQuotes :: "string \<Rightarrow> string" where
  "stripQuotes s = replaceScan True s"

section \<open>Data model (types.ts)\<close>

text \<open>
  Of a ticket only \<open>ticketId\<close> reaches the batch loop; its other fields and the history
  items are read by the prompt template alone.
\<close>

record Ticket =
  ticketId :: int
  subject :: string

record TicketHistoryItem =
  itemId :: int
  created :: string

text \<open>
  \<open>parsed\<close> holds the five properties that \<open>analysisSchema\<close> declares and requires;
  \<open>AiAnalysisResult\<close> adds the ticket id and the optional error.
\<close>

record parsed =
  score :: int
  summary :: string
  strengths :: "string list"
  weaknesses :: "string list"
  rcaDetected :: bool

record AiAnalysisResult = parsed +
  ticketId :: int
  error :: "string option"

record AiConfig =
  apiKey :: "string option"
  model :: string
  rpm :: int

text \<open>A thrown value, as the catch block reads it: \<open>err.message\<close> and \<open>err.status\<close>.\<close>

record js_error =
  message :: "string option"
  status :: "int option"

type_synonym 'a js_result = "js_error + 'a"

definition Error :: "string \<Rightarrow> js_error" where
  "Error m = \<lparr>message = Some m, status = None\<rparr>"

section \<open>The environment of one run\<close>

text \<open>
  What \<open>ai.models.generateContent\<close> followed by \<open>JSON.parse\<close> does for one ticket: the call
  rejects, the response text is empty, the text does not parse (the \<open>SyntaxError\<close> message
  is given), or it parses to an object of the response schema.
\<close>

datatype gen_outcome =
    GenRejects js_error
  | GenEmpty
  | GenUnparsable string
  | GenParsed parsed

text \<open>
  Per loop index: the outcome of \<open>ApiService.getTicketHistory\<close>, the outcome of the model
  call, the value of \<open>Date.now() - startTime\<close> at the throttle, and whether the user
  presses Stop (\<open>handleStop\<close>) while the two calls are pending or during the throttle sleep.
\<close>

record item_env =
  history :: "TicketHistoryItem list js_result"
  generated :: gen_outcome
  elapsed :: int
  stopDuringCalls :: bool
  stopDuringSleep :: bool

record env =
  API_KEY :: "string option"
  probeRejects :: "string \<Rightarrow> bool"
  items :: "nat \<Rightarrow> item_env"

text \<open>The external calls of a run, in order; per-item events carry the loop index.\<close>

datatype event =
    KeyProbe string
  | HistoryCall nat int
  | AnalysisCall nat int
  | ProviderCall nat string string
  | Sleep nat rat

fun evItem :: "event \<Rightarrow> nat option" where
  "evItem (KeyProbe k) = None"
| "evItem (HistoryCall i t) = Some i"
| "evItem (AnalysisCall i t) = Some i"
| "evItem (ProviderCall i k m) = Some i"
| "evItem (Sleep i w) = Some i"

fun isSleep :: "event \<Rightarrow> bool" where
  "isSleep (Sleep i w) = True"
| "isSleep e = False"

section \<open>services/ai.ts\<close>

text \<open>
  \<open>apiKey ? apiKey.trim().replace(/^["']|["']$/g, '') : process.env.API_KEY\<close>, with \<open>key0\<close>
  for the parameter \<open>apiKey\<close>.
\<close>

definition resolveKey :: "env \<Rightarrow> string option \<Rightarrow> string option" where
  "resolveKey e key0 =
     (if truthy key0 then (case key0 of Some k \<Rightarrow> Some (stripQuotes (trim k)) | None \<Rightarrow> None)
      else API_KEY e)"

text \<open>
  \<open>validateApiKey\<close> returns the keys it sent to the model service and its result; the
  \<open>try\<close> around the probe turns a rejection into \<open>false\<close>.
\<close>

definition validateApiKey :: "env \<Rightarrow> string option \<Rightarrow> string list \<times> bool js_result" where
  "validateApiKey e key0 =
     (let key = resolveKey e key0
      in if \<not> truthy key then ([], Inr False)
         else (case key of
                 Some k \<Rightarrow> if probeRejects e k then ([k], Inr False) else ([k], Inr True)
               | None \<Rightarrow> ([], Inr False)))"

definition missingKeyMessage :: string where
  "missingKeyMessage = ''API Key is missing. Please provide a key or configure the environment.''"

text \<open>
  \<open>analyzeTicket\<close> returns the (key, model) pairs it sent to the model service and either
  the thrown error or the result \<open>{ ticketId: ticket.ticketId, ...parsed }\<close>.
\<close>

definition analyzeTicket ::
  "env \<Rightarrow> gen_outcome \<Rightarrow> Ticket \<Rightarrow> TicketHistoryItem list \<Rightarrow> string \<Rightarrow> string option
     \<Rightarrow> (string \<times> string) list \<times> AiAnalysisResult js_result" where
  "analyzeTicket e gen ticket hist modelName key0 =
     (let key = resolveKey e key0
      in if \<not> truthy key then ([], Inl (Error missingKeyMessage))
         else (case key of
                 None \<Rightarrow> ([], Inl (Error missingKeyMessage))
               | Some k \<Rightarrow>
                   ([(k, modelName)],
                    (case gen of
                       GenRejects err \<Rightarrow> Inl err
                     | GenEmpty \<Rightarrow> Inl (Error ''Empty response from AI'')
                     | GenUnparsable m \<Rightarrow> Inl (Error m)
                     | GenParsed p \<Rightarrow>
                         Inr \<lparr>score = score p, summary = summary p, strengths = strengths p,
                              weaknesses = weaknesses p, rcaDetected = rcaDetected p,
                              ticketId = Ticket.ticketId ticket, error = None\<rparr>))))"

section \<open>Component state of the analysis modal\<close>

text \<open>
  The React state and the \<open>isRunningRef\<close> of \<open>AiAnalysisModal\<close>. The source holds three
  versions of the component, told apart here by a suffix:
  \<^item> \<open>p0\<close> reports each result through the \<open>onAnalysisUpdate\<close> prop (the version that
    components/Dashboard.tsx mounts); it counts in \<open>processedCount\<close> and \<open>errorCount\<close> and
    ends in step \<open>Complete\<close>;
  \<^item> \<open>p1\<close> keeps a \<open>results\<close> list, offers the download, and ends in step \<open>Results\<close>;
  \<^item> \<open>modal\<close> is components/AiAnalysisModal.tsx: a \<open>results\<close> list and one fatal test.

  Two fields are records of the run and not state of the component: \<open>updates\<close>, the
  arguments of the \<open>onAnalysisUpdate\<close> calls, and \<open>calls\<close>, the external calls;
  \<open>startAnalysis\<close> begins both anew.
\<close>

datatype step = Config | Processing | Complete | Results

record modal_state =
  step :: step
  progress :: nat
  currentProcessingId :: "int option"
  processedCount :: nat
  errorCount :: nat
  authError :: string
  isVerifying :: bool
  results :: "AiAnalysisResult list"
  isRunning :: bool
  updates :: "AiAnalysisResult list"
  calls :: "event list"

text \<open>\<open>handleStop\<close>, with the step the version shows afterwards.\<close>

definition handleStop :: "step \<Rightarrow> modal_state \<Rightarrow> modal_state" where
  "handleStop final st = st\<lparr>isRunning := False, step := final\<rparr>"

text \<open>The two places where the loop is suspended and a click on Stop can run.\<close>

definition awaitCalls :: "step \<Rightarrow> item_env \<Rightarrow> modal_state \<Rightarrow> modal_state" where
  "awaitCalls final ie st = (if stopDuringCalls ie then handleStop final st else st)"

definition awaitSleep :: "step \<Rightarrow> item_env \<Rightarrow> modal_state \<Rightarrow> modal_state" where
  "awaitSleep final ie st = (if stopDuringSleep ie then handleStop final st else st)"

section \<open>The batch loop\<close>

text \<open>\<open>Math.max(100, 60000 / config.rpm)\<close> and \<open>Math.max(0, delayMs - elapsedTime)\<close>.\<close>

definition delayMs :: "AiConfig \<Rightarrow> rat" where
  "delayMs config = max 100 (60000 / of_int (rpm config))"

definition timeToWait :: "AiConfig \<Rightarrow> int \<Rightarrow> rat" where
  "timeToWait config elapsedTime = max 0 (delayMs config - of_int elapsedTime)"

text \<open>
  The \<open>try\<close> block up to the value of \<open>result\<close>: the history fetch, then the analysis call
  when the fetch succeeded. It gives the calls made and the result or the thrown error.
\<close>

definition tryBlock :: "env \<Rightarrow> AiConfig \<Rightarrow> nat \<Rightarrow> Ticket \<Rightarrow> event list \<times> AiAnalysisResult js_result" where
  "tryBlock e config i ticket =
     (let tid = Ticket.ticketId ticket
      in case history (items e i) of
           Inl err \<Rightarrow> ([HistoryCall i tid], Inl err)
         | Inr historyResponse \<Rightarrow>
             (case analyzeTicket e (generated (items e i)) ticket historyResponse
                     (model config) (apiKey config) of
                (sent, r) \<Rightarrow>
                  ([HistoryCall i tid, AnalysisCall i tid] @ map (\<lambda>(k, m). ProviderCall i k m) sent, r)))"

text \<open>\<open>setProgress(i + 1)\<close> and the throttle that ends an iteration.\<close>

definition throttle :: "step \<Rightarrow> env \<Rightarrow> AiConfig \<Rightarrow> nat \<Rightarrow> nat \<Rightarrow> modal_state \<Rightarrow> modal_state" where
  "throttle final e config n i st =
     (let st1 = st\<lparr>progress := i + 1\<rparr>
      in if i < n - 1 \<and> isRunning st1
         then (if timeToWait config (elapsed (items e i)) > 0
               then awaitSleep final (items e i)
                      (st1\<lparr>calls := calls st1 @ [Sleep i (timeToWait config (elapsed (items e i)))]\<rparr>)
               else st1)
         else st1)"

text \<open>The catch block's \<open>msg\<close> and \<open>status\<close>, and \<open>err.message || "Unknown error"\<close>.\<close>

definition errMsg :: "js_error \<Rightarrow> string" where
  "errMsg err = (case message err of None \<Rightarrow> [] | Some m \<Rightarrow> toLowerCase m)"

definition errStatus :: "js_error \<Rightarrow> int" where
  "errStatus err = (case status err of None \<Rightarrow> 0 | Some s \<Rightarrow> s)"

definition messageOrUnknown :: "js_error \<Rightarrow> string" where
  "messageOrUnknown err = (if truthy (message err) then the (message err) else ''Unknown error'')"

text \<open>The classification of \<open>p0\<close> and \<open>p1\<close>.\<close>

definition isAuthError :: "js_error \<Rightarrow> bool" where
  "isAuthError err =
     (str_includes (errMsg err) ''401'' \<or> str_includes (errMsg err) ''api key''
      \<or> str_includes (errMsg err) ''unauthorized'' \<or> errStatus err = 401)"

definition isRateLimit :: "js_error \<Rightarrow> bool" where
  "isRateLimit err =
     (errStatus err = 429 \<or> str_includes (errMsg err) ''429'' \<or> str_includes (errMsg err) ''quota''
      \<or> str_includes (errMsg err) ''too many requests''
      \<or> str_includes (errMsg err) ''resource exhausted'')"

text \<open>The one fatal test of components/AiAnalysisModal.tsx.\<close>

definition isAuthError_modal :: "js_error \<Rightarrow> bool" where
  "isAuthError_modal err =
     (truthy (message err)
      \<and> (str_includes (the (message err)) ''401'' \<or> str_includes (the (message err)) ''API key''))"

subsection \<open>The results the loop makes up\<close>

definition fatalResult_p0 :: "Ticket \<Rightarrow> bool \<Rightarrow> AiAnalysisResult" where
  "fatalResult_p0 ticket rateLimit =
     \<lparr>score = 0, summary = (if rateLimit then ''Rate Limit Exceeded'' else ''Auth Failed''),
      strengths = [], weaknesses = [], rcaDetected = False,
      ticketId = Ticket.ticketId ticket,
      error = Some (if rateLimit then ''429 Quota Exceeded'' else ''401 Unauthorized'')\<rparr>"

definition failedResult_p0 :: "Ticket \<Rightarrow> js_error \<Rightarrow> AiAnalysisResult" where
  "failedResult_p0 ticket err =
     \<lparr>score = 0, summary = ''Analysis failed'', strengths = [], weaknesses = [],
      rcaDetected = False, ticketId = Ticket.ticketId ticket,
      error = Some (messageOrUnknown err)\<rparr>"

definition fatalResult_p1 :: "Ticket \<Rightarrow> bool \<Rightarrow> AiAnalysisResult" where
  "fatalResult_p1 ticket rateLimit =
     (let errorTitle = (if rateLimit then ''Rate Limit Exceeded (429)'' else ''Critical Auth Error'');
          errorDesc = (if rateLimit then ''API Quota Exceeded'' else ''Invalid API Key'')
      in \<lparr>score = 0, summary = ''Processing halted: '' @ errorDesc, strengths = [],
          weaknesses = [errorDesc], rcaDetected = False,
          ticketId = Ticket.ticketId ticket, error = Some errorTitle\<rparr>)"

definition failedResult_p1 :: "Ticket \<Rightarrow> js_error \<Rightarrow> AiAnalysisResult" where
  "failedResult_p1 ticket err =
     \<lparr>score = 0, summary = ''Analysis failed.'', strengths = [],
      weaknesses = [''Error processing ticket''], rcaDetected = False,
      ticketId = Ticket.ticketId ticket, error = Some (messageOrUnknown err)\<rparr>"

definition fatalResult_modal :: "Ticket \<Rightarrow> AiAnalysisResult" where
  "fatalResult_modal ticket =
     \<lparr>score = 0, summary = ''Authentication failed during batch processing.'', strengths = [],
      weaknesses = [''Invalid or Expired API Key''], rcaDetected = False,
      ticketId = Ticket.ticketId ticket, error = Some ''Critical Auth Error''\<rparr>"

definition rateLimitBanner_p0 :: string where
  "rateLimitBanner_p0 = ''Analysis paused: Rate limit exceeded.''"

definition authBanner_p0 :: string where
  "authBanner_p0 = ''Analysis stopped: Auth failed.''"

definition rateLimitBanner_p1 :: string where
  "rateLimitBanner_p1 =
     ''Analysis stopped: API Quota/Rate limit exceeded. Please try again later or increase the RPM delay.''"

definition authBanner_p1 :: string where
  "authBanner_p1 = ''Analysis stopped: Authentication failed.''"

subsection \<open>One iteration, after the \<open>isRunningRef\<close> test\<close>

text \<open>
  Each body gives the state after the iteration and whether it left the loop by \<open>break\<close>.
  \<open>n\<close> is \<open>ticketsToProcess.length\<close>.
\<close>

definition iteration_p0 ::
  "env \<Rightarrow> AiConfig \<Rightarrow> Ticket list \<Rightarrow> nat \<Rightarrow> modal_state \<Rightarrow> modal_state \<times> bool" where
  "iteration_p0 e config ticketsToProcess i st =
     (let ticket = ticketsToProcess ! i;
          st1 = st\<lparr>currentProcessingId := Some (Ticket.ticketId ticket)\<rparr>
      in case tryBlock e config i ticket of
           (evs, outcome) \<Rightarrow>
             (let st2 = awaitCalls Complete (items e i) (st1\<lparr>calls := calls st1 @ evs\<rparr>)
              in case outcome of
                   Inr result \<Rightarrow>
                     (throttle Complete e config (length ticketsToProcess) i
                        (st2\<lparr>updates := updates st2 @ [result],
                             processedCount := processedCount st2 + 1\<rparr>), False)
                 | Inl err \<Rightarrow>
                     (let st3 = st2\<lparr>errorCount := errorCount st2 + 1\<rparr>
                      in if isAuthError err \<or> isRateLimit err
                         then (st3\<lparr>isRunning := False, step := Complete,
                                    authError := (if isRateLimit err then rateLimitBanner_p0
                                                  else authBanner_p0),
                                    updates := updates st3 @ [fatalResult_p0 ticket (isRateLimit err)]\<rparr>,
                               True)
                         else (throttle Complete e config (length ticketsToProcess) i
                                 (st3\<lparr>updates := updates st3 @ [failedResult_p0 ticket err]\<rparr>),
                               False))))"

definition iteration_p1 ::
  "env \<Rightarrow> AiConfig \<Rightarrow> Ticket list \<Rightarrow> nat \<Rightarrow> modal_state \<Rightarrow> modal_state \<times> bool" where
  "iteration_p1 e config ticketsToProcess i st =
     (let ticket = ticketsToProcess ! i;
          st1 = st\<lparr>currentProcessingId := Some (Ticket.ticketId ticket)\<rparr>
      in case tryBlock e config i ticket of
           (evs, outcome) \<Rightarrow>
             (let st2 = awaitCalls Results (items e i) (st1\<lparr>calls := calls st1 @ evs\<rparr>)
              in case outcome of
                   Inr result \<Rightarrow>
                     (throttle Results e config (length ticketsToProcess) i
                        (st2\<lparr>results := results st2 @ [result]\<rparr>), False)
                 | Inl err \<Rightarrow>
                     (if isAuthError err \<or> isRateLimit err
                      then (st2\<lparr>isRunning := False, step := Results,
                                 authError := (if isRateLimit err then rateLimitBanner_p1
                                               else authBanner_p1),
                                 results := results st2 @ [fatalResult_p1 ticket (isRateLimit err)]\<rparr>,
                            True)
                      else (throttle Results e config (length ticketsToProcess) i
                              (st2\<lparr>results := results st2 @ [failedResult_p1 ticket err]\<rparr>),
                            False))))"

definition iteration_modal ::
  "env \<Rightarrow> AiConfig \<Rightarrow> Ticket list \<Rightarrow> nat \<Rightarrow> modal_state \<Rightarrow> modal_state \<times> bool" where
  "iteration_modal e config ticketsToProcess i st =
     (let ticket = ticketsToProcess ! i;
          st1 = st\<lparr>currentProcessingId := Some (Ticket.ticketId ticket)\<rparr>
      in case tryBlock e config i ticket of
           (evs, outcome) \<Rightarrow>
             (let st2 = awaitCalls Results (items e i) (st1\<lparr>calls := calls st1 @ evs\<rparr>)
              in case outcome of
                   Inr result \<Rightarrow>
                     (throttle Results e config (length ticketsToProcess) i
                        (st2\<lparr>results := results st2 @ [result]\<rparr>), False)
                 | Inl err \<Rightarrow>
                     (if isAuthError_modal err
                      then (st2\<lparr>isRunning := False, step := Results,
                                 results := results st2 @ [fatalResult_modal ticket]\<rparr>,
                            True)
                      else (throttle Results e config (length ticketsToProcess) i
                              (st2\<lparr>results := results st2 @ [failedResult_p1 ticket err]\<rparr>),
                            False))))"

subsection \<open>The loop and the three \<open>startAnalysis\<close>\<close>

text \<open>
  \<open>for (let i = 0; i < n; i++) { if (!isRunningRef.current) break; body }\<close>, the same in
  the three versions.
\<close>

function forLoop ::
  "(nat \<Rightarrow> modal_state \<Rightarrow> modal_state \<times> bool) \<Rightarrow> nat \<Rightarrow> nat \<Rightarrow> modal_state \<Rightarrow> modal_state" where
  "forLoop body n i st =
     (if i < n
      then (if \<not> isRunning st then st
            else (case body i st of
                    (st', broke) \<Rightarrow> if broke then st' else forLoop body n (Suc i) st'))
      else st)"
  by pat_completeness auto
termination
  by (relation "measure (\<lambda>(body, n, i, st). n - i)") auto

text \<open>
  A value \<open>Inl\<close> of \<open>startAnalysis\<close> is an exception that leaves it. The key probe is
  awaited outside every \<open>try\<close>, so an exception of \<open>validateApiKey\<close> would be one.
\<close>

definition runLoop_p0 :: "env \<Rightarrow> AiConfig \<Rightarrow> Ticket list \<Rightarrow> modal_state \<Rightarrow> modal_state" where
  "runLoop_p0 e config tickets st =
     (let st1 = st\<lparr>step := Processing, progress := 0, processedCount := 0, errorCount := 0,
                   isRunning := True\<rparr>;
          ticketsToProcess = tickets;
          st2 = forLoop (iteration_p0 e config ticketsToProcess) (length ticketsToProcess) 0 st1
      in st2\<lparr>step := Complete, isRunning := False\<rparr>)"

definition startAnalysis_p0 ::
  "env \<Rightarrow> AiConfig \<Rightarrow> Ticket list \<Rightarrow> modal_state \<Rightarrow> modal_state js_result" where
  "startAnalysis_p0 e config tickets st0 =
     (let st = st0\<lparr>authError := [], updates := [], calls := []\<rparr>
      in if truthy (apiKey config)
         then (case validateApiKey e (apiKey config) of
                 (sent, Inl err) \<Rightarrow> Inl err
               | (sent, Inr isValid) \<Rightarrow>
                   (let st' = st\<lparr>calls := calls st @ map KeyProbe sent\<rparr>
                    in if \<not> isValid
                       then Inr (st'\<lparr>authError := ''Connection failed. Please check your API Key.''\<rparr>)
                       else Inr (runLoop_p0 e config tickets st')))
         else Inr (runLoop_p0 e config tickets st))"

definition connectionFailed_p1 :: string where
  "connectionFailed_p1 =
     ''Connection failed. Please check your API Key or environment configuration.''"

definition runLoop_p1 :: "env \<Rightarrow> AiConfig \<Rightarrow> Ticket list \<Rightarrow> modal_state \<Rightarrow> modal_state" where
  "runLoop_p1 e config tickets st =
     (let st1 = st\<lparr>isVerifying := False, step := Processing, results := [], progress := 0,
                   isRunning := True\<rparr>;
          ticketsToProcess = take 50 tickets;
          st2 = forLoop (iteration_p1 e config ticketsToProcess) (length ticketsToProcess) 0 st1
      in st2\<lparr>step := Results, isRunning := False\<rparr>)"

definition startAnalysis_p1 ::
  "env \<Rightarrow> AiConfig \<Rightarrow> Ticket list \<Rightarrow> modal_state \<Rightarrow> modal_state js_result" where
  "startAnalysis_p1 e config tickets st0 =
     (let st = st0\<lparr>authError := [], isVerifying := True, updates := [], calls := []\<rparr>
      in case validateApiKey e (apiKey config) of
           (sent, Inl err) \<Rightarrow> Inl err
         | (sent, Inr isValid) \<Rightarrow>
             (let st' = st\<lparr>calls := calls st @ map KeyProbe sent\<rparr>
              in if \<not> isValid
                 then Inr (st'\<lparr>authError := connectionFailed_p1, isVerifying := False\<rparr>)
                 else Inr (runLoop_p1 e config tickets st')))"

definition runLoop_modal :: "env \<Rightarrow> AiConfig \<Rightarrow> Ticket list \<Rightarrow> modal_state \<Rightarrow> modal_state" where
  "runLoop_modal e config tickets st =
     (let st1 = st\<lparr>isVerifying := False, step := Processing, results := [], progress := 0,
                   isRunning := True\<rparr>;
          ticketsToProcess = take 50 tickets;
          st2 = forLoop (iteration_modal e config ticketsToProcess) (length ticketsToProcess) 0 st1
      in st2\<lparr>step := Results, isRunning := False\<rparr>)"

definition startAnalysis_modal ::
  "env \<Rightarrow> AiConfig \<Rightarrow> Ticket list \<Rightarrow> modal_state \<Rightarrow> modal_state js_result" where
  "startAnalysis_modal e config tickets st0 =
     (let st = st0\<lparr>authError := [], isVerifying := True, updates := [], calls := []\<rparr>
      in case validateApiKey e (apiKey config) of
           (sent, Inl err) \<Rightarrow> Inl err
         | (sent, Inr isValid) \<Rightarrow>
             (let st' = st\<lparr>calls := calls st @ map KeyProbe sent\<rparr>
              in if \<not> isValid
                 then Inr (st'\<lparr>authError := connectionFailed_p1, isVerifying := False\<rparr>)
                 else Inr (runLoop_modal e config tickets st')))"

section \<open>Reading a run\<close>

text \<open>
  What the \<open>try\<close> block of iteration \<open>i\<close> yields and which calls it makes; both depend on
  the environment alone, not on the state of the component.
\<close>

definition outcome :: "env \<Rightarrow> AiConfig \<Rightarrow> Ticket list \<Rightarrow> nat \<Rightarrow> AiAnalysisResult js_result" where
  "outcome e config ts i = snd (tryBlock e config i (ts ! i))"

definition itemCalls :: "env \<Rightarrow> AiConfig \<Rightarrow> Ticket list \<Rightarrow> nat \<Rightarrow> event list" where
  "itemCalls e config ts i = fst (tryBlock e config i (ts ! i))"

text \<open>Item \<open>i\<close> fails and the catch block takes its fatal branch.\<close>

definition fatalAt :: "env \<Rightarrow> AiConfig \<Rightarrow> Ticket list \<Rightarrow> nat \<Rightarrow> bool" where
  "fatalAt e config ts i =
     (case outcome e config ts i of Inl err \<Rightarrow> isAuthError err \<or> isRateLimit err | Inr r \<Rightarrow> False)"

definition fatalAt_modal :: "env \<Rightarrow> AiConfig \<Rightarrow> Ticket list \<Rightarrow> nat \<Rightarrow> bool" where
  "fatalAt_modal e config ts i =
     (case outcome e config ts i of Inl err \<Rightarrow> isAuthError_modal err | Inr r \<Rightarrow> False)"

text \<open>The result that iteration \<open>i\<close> hands out, in each version.\<close>

definition emitted_p0 :: "env \<Rightarrow> AiConfig \<Rightarrow> Ticket list \<Rightarrow> nat \<Rightarrow> AiAnalysisResult" where
  "emitted_p0 e config ts i =
     (case outcome e config ts i of
        Inr r \<Rightarrow> r
      | Inl err \<Rightarrow> if isAuthError err \<or> isRateLimit err
                   then fatalResult_p0 (ts ! i) (isRateLimit err)
                   else failedResult_p0 (ts ! i) err)"

definition emitted_p1 :: "env \<Rightarrow> AiConfig \<Rightarrow> Ticket list \<Rightarrow> nat \<Rightarrow> AiAnalysisResult" where
  "emitted_p1 e config ts i =
     (case outcome e config ts i of
        Inr r \<Rightarrow> r
      | Inl err \<Rightarrow> if isAuthError err \<or> isRateLimit err
                   then fatalResult_p1 (ts ! i) (isRateLimit err)
                   else failedResult_p1 (ts ! i) err)"

definition emitted_modal :: "env \<Rightarrow> AiConfig \<Rightarrow> Ticket list \<Rightarrow> nat \<Rightarrow> AiAnalysisResult" where
  "emitted_modal e config ts i =
     (case outcome e config ts i of
        Inr r \<Rightarrow> r
      | Inl err \<Rightarrow> if isAuthError_modal err then fatalResult_modal (ts ! i)
                   else failedResult_p1 (ts ! i) err)"

text \<open>
  The throttle of iteration \<open>i\<close> has a positive wait to sleep (when the loop is still
  running there), and the call it then logs.
\<close>

definition sleeps :: "env \<Rightarrow> AiConfig \<Rightarrow> nat \<Rightarrow> nat \<Rightarrow> bool" where
  "sleeps e config n i = (i < n - 1 \<and> timeToWait config (elapsed (items e i)) > 0)"

definition sleepCall :: "env \<Rightarrow> AiConfig \<Rightarrow> nat \<Rightarrow> event" where
  "sleepCall e config i = Sleep i (timeToWait config (elapsed (items e i)))"

text \<open>
  The loop gets to iteration \<open>k\<close>: no earlier item is fatal and Stop is not pressed before.
  It ends in iteration \<open>k\<close>: the item is fatal, or Stop is pressed during its calls or
  during its sleep.
\<close>

definition reaches :: "(nat \<Rightarrow> bool) \<Rightarrow> env \<Rightarrow> nat \<Rightarrow> bool" where
  "reaches isFatal e k =
     (\<forall>j\<in>{..<k}. \<not> isFatal j \<and> \<not> stopDuringCalls (items e j) \<and> \<not> stopDuringSleep (items e j))"

definition haltsAt :: "(nat \<Rightarrow> bool) \<Rightarrow> env \<Rightarrow> AiConfig \<Rightarrow> nat \<Rightarrow> nat \<Rightarrow> bool" where
  "haltsAt isFatal e config n k =
     (isFatal k \<or> stopDuringCalls (items e k) \<or> (sleeps e config n k \<and> stopDuringSleep (items e k)))"

text \<open>
  What the three bodies have in common, as a property of a body: \<open>sel\<close> is the list the
  version hands its results to, \<open>em\<close> the result of each iteration, \<open>isFatal\<close> its test.
\<close>

definition iteration_spec ::
  "(nat \<Rightarrow> modal_state \<Rightarrow> modal_state \<times> bool) \<Rightarrow> (modal_state \<Rightarrow> AiAnalysisResult list)
     \<Rightarrow> (nat \<Rightarrow> AiAnalysisResult) \<Rightarrow> (nat \<Rightarrow> bool) \<Rightarrow> env \<Rightarrow> AiConfig \<Rightarrow> Ticket list \<Rightarrow> bool" where
  "iteration_spec body sel em isFatal e config ts =
     (\<forall>j s. snd (body j s) = isFatal j
        \<and> sel (fst (body j s)) = sel s @ [em j]
        \<and> isRunning (fst (body j s)) =
            (isRunning s \<and> \<not> isFatal j \<and> \<not> stopDuringCalls (items e j)
             \<and> \<not> (sleeps e config (length ts) j \<and> stopDuringSleep (items e j)))
        \<and> calls (fst (body j s)) =
            calls s @ itemCalls e config ts j @
              (if isRunning s \<and> \<not> isFatal j \<and> \<not> stopDuringCalls (items e j)
                  \<and> sleeps e config (length ts) j
               then [sleepCall e config j] else [])
        \<and> progress (fst (body j s)) = (if isFatal j then progress s else j + 1)
        \<and> (\<not> isFatal j \<longrightarrow> authError (fst (body j s)) = authError s))"

text \<open>The loop invariant at index \<open>j\<close> while nothing has stopped the run.\<close>

definition loop_inv ::
  "(modal_state \<Rightarrow> AiAnalysisResult list) \<Rightarrow> (nat \<Rightarrow> AiAnalysisResult) \<Rightarrow> modal_state
     \<Rightarrow> nat \<Rightarrow> modal_state \<Rightarrow> bool" where
  "loop_inv sel em s0 j s =
     (isRunning s \<and> sel s = sel s0 @ map em [0..<j]
      \<and> authError s = authError s0
      \<and> progress s = (if j = 0 then progress s0 else j)
      \<and> (\<forall>ev\<in>set (calls s). ev \<in> set (calls s0) \<or> (\<exists>m<j. evItem ev = Some m)))"

fun isHistoryCall :: "event \<Rightarrow> bool" where
  "isHistoryCall (HistoryCall i t) = True"
| "isHistoryCall ev = False"




text \<open>
  The key probe lets the run into the loop; the calls of the probe; the state in which
  each version enters its loop.
\<close>

definition probePasses :: "env \<Rightarrow> AiConfig \<Rightarrow> bool" where
  "probePasses e config = (snd (validateApiKey e (apiKey config)) = Inr True)"

definition entersLoop_p0 :: "env \<Rightarrow> AiConfig \<Rightarrow> bool" where
  "entersLoop_p0 e config = (if truthy (apiKey config) then probePasses e config else True)"

definition probeCalls :: "env \<Rightarrow> AiConfig \<Rightarrow> event list" where
  "probeCalls e config = map KeyProbe (fst (validateApiKey e (apiKey config)))"

definition loopStart_p0 :: "env \<Rightarrow> AiConfig \<Rightarrow> modal_state \<Rightarrow> modal_state" where
  "loopStart_p0 e config st0 =
     st0\<lparr>authError := [], updates := [],
         calls := (if truthy (apiKey config) then probeCalls e config else []),
         step := Processing, progress := 0, processedCount := 0, errorCount := 0,
         isRunning := True\<rparr>"

definition loopStart_p1 :: "env \<Rightarrow> AiConfig \<Rightarrow> modal_state \<Rightarrow> modal_state" where
  "loopStart_p1 e config st0 =
     st0\<lparr>authError := [], updates := [], calls := probeCalls e config, isVerifying := False,
         step := Processing, results := [], progress := 0, isRunning := True\<rparr>"

text \<open>The state in which a run ends when the probe turns it away.\<close>

definition rejected_p0 :: "env \<Rightarrow> AiConfig \<Rightarrow> modal_state \<Rightarrow> modal_state" where
  "rejected_p0 e config st0 =
     st0\<lparr>authError := ''Connection failed. Please check your API Key.'', updates := [],
         calls := probeCalls e config\<rparr>"

definition rejected_p1 :: "env \<Rightarrow> AiConfig \<Rightarrow> modal_state \<Rightarrow> modal_state" where
  "rejected_p1 e config st0 =
     st0\<lparr>authError := connectionFailed_p1, isVerifying := False, updates := [],
         calls := probeCalls e config\<rparr>"

section \<open>The specification's own words\<close>

text \<open>
  Key normalisation as the specification words it: trim the surrounding whitespace, then
  strip one leading and one trailing quote character.
\<close>

definition spec_stripQuotes :: "string \<Rightarrow> string" where
  "spec_stripQuotes s =
     (let a = (if s \<noteq> [] \<and> isQuote (hd s) then tl s else s)
      in if a \<noteq> [] \<and> isQuote (last a) then butlast a else a)"

definition spec_normalizeKey :: "string \<Rightarrow> string" where
  "spec_normalizeKey k = spec_stripQuotes (trim k)"

text \<open>
  The failure signals as the specification lists them, on the lower-cased message
  (\<open>errMsg\<close>) and the status code.
\<close>

definition spec_authSignal :: "js_error \<Rightarrow> bool" where
  "spec_authSignal err =
     (status err = Some 401 \<or> str_includes (errMsg err) ''api key''
      \<or> str_includes (errMsg err) ''unauthorized'')"

definition spec_rateLimitSignal :: "js_error \<Rightarrow> bool" where
  "spec_rateLimitSignal err =
     (status err = Some 429 \<or> str_includes (errMsg err) ''quota''
      \<or> str_includes (errMsg err) ''rate limit''
      \<or> str_includes (errMsg err) ''too many requests''
      \<or> str_includes (errMsg err) ''resource exhausted'')"

section \<open>Example runs\<close>

text \<open>
  Concrete tickets, outcomes and environments, for evaluating the three versions. The modal
  opens in \<open>opened\<close>; \<open>config0\<close> is the configuration \<open>p0\<close> starts with (no key typed in,
  30 requests per minute).
\<close>

definition mkTicket :: "int \<Rightarrow> Ticket" where
  "mkTicket n = \<lparr>Ticket.ticketId = n, subject = ''Printer offline''\<rparr>"

definition opened :: modal_state where
  "opened = \<lparr>step = Config, progress = 0, currentProcessingId = None, processedCount = 0,
             errorCount = 0, authError = [], isVerifying = False, results = [],
             isRunning = False, updates = [], calls = []\<rparr>"

definition config0 :: AiConfig where
  "config0 = \<lparr>apiKey = Some [], model = ''gemini-2.5-flash'', rpm = 30\<rparr>"

definition goodItem :: item_env where
  "goodItem =
     \<lparr>history = Inr [],
      generated = GenParsed \<lparr>score = 8, summary = ''Handled well'', strengths = [''Fast response''],
                            weaknesses = [], rcaDetected = True\<rparr>,
      elapsed = 500, stopDuringCalls = False, stopDuringSleep = False\<rparr>"

definition failItem :: "js_error \<Rightarrow> item_env" where
  "failItem err = goodItem\<lparr>generated := GenRejects err\<rparr>"

definition envOf :: "(nat \<Rightarrow> item_env) \<Rightarrow> env" where
  "envOf f = \<lparr>API_KEY = Some ''env-key'', probeRejects = (\<lambda>k. False), items = f\<rparr>"

definition only :: "nat \<Rightarrow> item_env \<Rightarrow> nat \<Rightarrow> item_env" where
  "only k ie i = (if i = k then ie else goodItem)"

definition quotaErr :: js_error where
  "quotaErr = \<lparr>message = Some ''Quota exceeded for this model'', status = Some 429\<rparr>"

definition rateLimitWordsErr :: js_error where
  "rateLimitWordsErr = \<lparr>message = Some ''Rate limit reached'', status = None\<rparr>"

definition unauthorizedErr :: js_error where
  "unauthorizedErr = \<lparr>message = Some ''Unauthorized'', status = Some 401\<rparr>"

definition keyQuotaErr :: js_error where
  "keyQuotaErr = \<lparr>message = Some ''API key quota used up'', status = Some 401\<rparr>"

definition serverErr :: js_error where
  "serverErr = \<lparr>message = Some ''Internal error'', status = Some 500\<rparr>"

definition silentErr :: js_error where
  "silentErr = \<lparr>message = Some [], status = Some 500\<rparr>"

text \<open>
  Five tickets; at 30 requests per minute with the third answered by a 429 they are the
  end-to-end scenario of the specification.
\<close>

definition fiveTickets :: "Ticket list" where
  "fiveTickets = map mkTicket [1, 2, 3, 4, 5]"

definition quotaAtThird :: env where
  "quotaAtThird = envOf (only 2 (failItem quotaErr))"

text \<open>
  Two tickets, the first failing with the words "Rate limit reached" and no status; and two
  tickets in components/AiAnalysisModal.tsx, the first answered with a 429.
\<close>

definition rateLimitWordsRun :: "modal_state js_result" where
  "rateLimitWordsRun =
     startAnalysis_p0 (envOf (only 0 (failItem rateLimitWordsErr))) config0 (map mkTicket [1, 2]) opened"

definition quotaRun_modal :: "modal_state js_result" where
  "quotaRun_modal =
     startAnalysis_modal (envOf (only 0 (failItem quotaErr))) config0 (map mkTicket [1, 2]) opened"

text \<open>
  Five tickets, the second answered with "Unauthorized", status 401; and two tickets in
  components/AiAnalysisModal.tsx, the first answered so.
\<close>

definition unauthorizedAtSecond :: env where
  "unauthorizedAtSecond = envOf (only 1 (failItem unauthorizedErr))"

definition unauthorizedRun_modal :: "modal_state js_result" where
  "unauthorizedRun_modal =
     startAnalysis_modal (envOf (only 0 (failItem unauthorizedErr))) config0 (map mkTicket [1, 2]) opened"

text \<open>
  Two tickets, the first answered with a 401; and the first answered with a 401 whose
  message also speaks of a quota.
\<close>

definition unauthorizedFirstRun :: "modal_state js_result" where
  "unauthorizedFirstRun =
     startAnalysis_p0 (envOf (only 0 (failItem unauthorizedErr))) config0 (map mkTicket [1, 2]) opened"

definition keyQuotaRun :: "modal_state js_result" where
  "keyQuotaRun =
     startAnalysis_p0 (envOf (only 0 (failItem keyQuotaErr))) config0 (map mkTicket [1, 2]) opened"

text \<open>
  Two tickets, the first answered with "Unauthorized", status 401.
\<close>

definition unauthorizedFirst :: env where
  "unauthorizedFirst = envOf (only 0 (failItem unauthorizedErr))"

text \<open>
  An environment whose key the model service turns down, with a first ticket answered by a
  401; a configuration with a key typed in; and the run of \<open>p0\<close> there with no key typed in.
\<close>

definition expiredKeyEnv :: env where
  "expiredKeyEnv =
     \<lparr>API_KEY = Some ''expired'', probeRejects = (\<lambda>k. True),
      items = only 0 (failItem unauthorizedErr)\<rparr>"

definition typedKeyConfig :: AiConfig where
  "typedKeyConfig = \<lparr>apiKey = Some ''typed-key'', model = ''gemini-2.5-flash'', rpm = 10\<rparr>"

definition expiredKeyRun :: "modal_state js_result" where
  "expiredKeyRun = startAnalysis_p0 expiredKeyEnv config0 (map mkTicket [1, 2]) opened"




text \<open>
  Five tickets, the second answered with a 500; two tickets, the first answered with a 500
  and an empty message; and 51 tickets in \<open>p1\<close>, the first answered with a 500.
\<close>

definition serverErrAtSecond :: env where
  "serverErrAtSecond = envOf (only 1 (failItem serverErr))"

definition silentFirstRun :: "modal_state js_result" where
  "silentFirstRun =
     startAnalysis_p0 (envOf (only 0 (failItem silentErr))) config0 (map mkTicket [1, 2]) opened"

definition manyTickets :: "Ticket list" where
  "manyTickets = map (\<lambda>n. mkTicket (int n)) [1..<52]"

definition quickItem :: item_env where
  "quickItem = goodItem\<lparr>elapsed := 2500\<rparr>"

definition manyRun_p1 :: "modal_state js_result" where
  "manyRun_p1 =
     startAnalysis_p1
       \<lparr>API_KEY = Some ''env-key'', probeRejects = (\<lambda>k. False),
        items = (\<lambda>i. if i = 0 then quickItem\<lparr>generated := GenRejects serverErr\<rparr> else quickItem)\<rparr>
       config0 manyTickets opened"


text \<open>
  A key as a user may paste it: blanks around it and double quotes.
\<close>

definition pastedKey :: string where
  "pastedKey = '' '' @ [CHR 0x22] @ ''sk-123'' @ [CHR 0x22] @ ''  ''"

section \<open>The loop rule\<close>

text \<open>
  The equation of \<open>forLoop\<close> unfolds for ever as a rewrite rule; the lemmas below use it
  one step at a time.
\<close>

declare forLoop.simps [simp del]

lemma forLoop_rule:
  assumes init: "P i st"
    and body: "\<And>j s s' broke. \<lbrakk>i \<le> j; j < n; P j s; isRunning s; body j s = (s', broke)\<rbrakk>
                 \<Longrightarrow> (if broke then Q s' else P (Suc j) s')"
    and exit: "\<And>j s. \<lbrakk>i \<le> j; P j s; n \<le> j \<or> \<not> isRunning s\<rbrakk> \<Longrightarrow> Q s"
  shows "Q (forLoop body n i st)"
  using init body exit
proof (induction body n i st rule: forLoop.induct)
  case (1 body n i st)
  show ?case
  proof (cases "i < n \<and> isRunning st")
    case False
    then have "forLoop body n i st = st"
      by (simp add: forLoop.simps)
    moreover have "Q st"
      using False "1.prems"(1) "1.prems"(3)[of i st] by auto
    ultimately show ?thesis by simp
  next
    case True
    obtain s' broke where b: "body i st = (s', broke)"
      by (cases "body i st")
    have step: "if broke then Q s' else P (Suc i) s'"
      using "1.prems"(2)[of i st s' broke] True "1.prems"(1) b by simp
    show ?thesis
    proof (cases broke)
      case True
      with \<open>i < n \<and> isRunning st\<close> b step show ?thesis
        by (simp add: forLoop.simps)
    next
      case False
      have "Q (forLoop body n (Suc i) s')"
      proof (rule "1.IH"[OF _ _ b[symmetric] _ ])
        show "i < n" using True by simp
        show "\<not> \<not> isRunning st" using True by simp
        show "\<not> broke" by fact
        show "P (Suc i) s'" using step False by simp
      next
        fix j s s'' broke'
        assume "Suc i \<le> j" "j < n" "P j s" "isRunning s" "body j s = (s'', broke')"
        then show "if broke' then Q s'' else P (Suc j) s''"
          using "1.prems"(2)[of j s s'' broke'] by simp
      next
        fix j s
        assume "Suc i \<le> j" "P j s" "n \<le> j \<or> \<not> isRunning s"
        then show "Q s" using "1.prems"(3)[of j s] by simp
      qed
      with True b False show ?thesis
        by (simp add: forLoop.simps)
    qed
  qed
qed

lemma forLoop_break:
  assumes "i < n" "isRunning s" "body i s = (s', True)"
  shows "forLoop body n i s = s'"
  using assms by (simp add: forLoop.simps)

lemma forLoop_next:
  assumes "i < n" "isRunning s" "body i s = (s', False)"
  shows "forLoop body n i s = forLoop body n (Suc i) s'"
  using assms by (simp add: forLoop.simps)

lemma forLoop_stopped: "\<not> isRunning s \<Longrightarrow> forLoop body n i s = s"
  by (simp add: forLoop.simps)

lemma forLoop_done: "n \<le> i \<Longrightarrow> forLoop body n i s = s"
  by (simp add: forLoop.simps)

section \<open>The iteration property and the run up to an iteration\<close>

lemma tryBlock_split: "tryBlock e config i (ts ! i) = (itemCalls e config ts i, outcome e config ts i)"
  by (simp add: itemCalls_def outcome_def)

lemma itemCalls_events:
  "ev \<in> set (itemCalls e config ts i) \<Longrightarrow> evItem ev = Some i \<and> \<not> isSleep ev"
  by (auto simp: itemCalls_def tryBlock_def Let_def split: sum.splits prod.splits)

lemma spec_broke: "iteration_spec body sel em isFatal e config ts \<Longrightarrow> body j s = (fst (body j s), isFatal j)"
  by (simp add: iteration_spec_def prod_eq_iff)

lemma spec_sel: "iteration_spec body sel em isFatal e config ts \<Longrightarrow> sel (fst (body j s)) = sel s @ [em j]"
  by (simp add: iteration_spec_def)

lemma spec_isRunning:
  "iteration_spec body sel em isFatal e config ts \<Longrightarrow>
   isRunning (fst (body j s)) =
     (isRunning s \<and> \<not> isFatal j \<and> \<not> stopDuringCalls (items e j)
      \<and> \<not> (sleeps e config (length ts) j \<and> stopDuringSleep (items e j)))"
  by (simp add: iteration_spec_def)

lemma spec_calls:
  "iteration_spec body sel em isFatal e config ts \<Longrightarrow>
   calls (fst (body j s)) =
     calls s @ itemCalls e config ts j @
       (if isRunning s \<and> \<not> isFatal j \<and> \<not> stopDuringCalls (items e j)
           \<and> sleeps e config (length ts) j
        then [sleepCall e config j] else [])"
  by (simp add: iteration_spec_def)

lemma spec_progress:
  "iteration_spec body sel em isFatal e config ts \<Longrightarrow>
   progress (fst (body j s)) = (if isFatal j then progress s else j + 1)"
  by (simp add: iteration_spec_def)

lemma spec_authError:
  "iteration_spec body sel em isFatal e config ts \<Longrightarrow> \<not> isFatal j \<Longrightarrow>
   authError (fst (body j s)) = authError s"
  by (simp add: iteration_spec_def)

lemma spec_calls_cases:
  assumes "iteration_spec body sel em isFatal e config ts" "ev \<in> set (calls (fst (body j s)))"
  shows "ev \<in> set (calls s) \<or> ev \<in> set (itemCalls e config ts j)
         \<or> (ev = sleepCall e config j \<and> isRunning s \<and> \<not> isFatal j
             \<and> \<not> stopDuringCalls (items e j) \<and> sleeps e config (length ts) j)"
  using assms(2) by (auto simp: spec_calls[OF assms(1)] split: if_splits)


lemma sleepCall_item [simp]: "evItem (sleepCall e config j) = Some j" "isSleep (sleepCall e config j)"
  by (simp_all add: sleepCall_def)

lemma loop_inv_step:
  assumes sp: "iteration_spec body sel em isFatal e config ts"
    and inv: "loop_inv sel em s0 j s" and nf: "\<not> isFatal j"
    and c1: "\<not> stopDuringCalls (items e j)" and c2: "\<not> stopDuringSleep (items e j)"
  shows "loop_inv sel em s0 (Suc j) (fst (body j s))"
proof -
  let ?s' = "fst (body j s)"
  from inv have r: "isRunning s"
    and u: "sel s = sel s0 @ map em [0..<j]"
    and a: "authError s = authError s0"
    and l: "\<forall>ev\<in>set (calls s). ev \<in> set (calls s0) \<or> (\<exists>m<j. evItem ev = Some m)"
    by (simp_all add: loop_inv_def)
  have 1: "isRunning ?s'"
    using r nf c1 c2 by (simp add: spec_isRunning[OF sp])
  have 2: "sel ?s' = sel s0 @ map em [0..<Suc j]"
    using u by (simp add: spec_sel[OF sp])
  have 3: "authError ?s' = authError s0"
    using a nf by (simp add: spec_authError[OF sp])
  have 4: "progress ?s' = Suc j"
    using nf by (simp add: spec_progress[OF sp])
  have 5: "\<forall>ev\<in>set (calls ?s'). ev \<in> set (calls s0) \<or> (\<exists>m<Suc j. evItem ev = Some m)"
  proof
    fix ev assume "ev \<in> set (calls ?s')"
    from spec_calls_cases[OF sp this]
    consider "ev \<in> set (calls s)" | "ev \<in> set (itemCalls e config ts j)"
      | "ev = sleepCall e config j" by blast
    then show "ev \<in> set (calls s0) \<or> (\<exists>m<Suc j. evItem ev = Some m)"
    proof cases
      case 1
      with l show ?thesis using less_Suc_eq by blast
    next
      case 2
      then show ?thesis using itemCalls_events by blast
    next
      case 3
      then show ?thesis by simp
    qed
  qed
  from 1 2 3 4 5 show ?thesis
    by (simp add: loop_inv_def)
qed

lemma reach_loop:
  assumes sp: "iteration_spec body sel em isFatal e config ts"
    and "reaches isFatal e k" "isRunning s0" "k \<le> length ts"
  shows "\<exists>s. loop_inv sel em s0 k s \<and>
             forLoop body (length ts) 0 s0 = forLoop body (length ts) k s"
  using assms(2-)
proof (induction k)
  case 0
  then show ?case by (auto simp: loop_inv_def)
next
  case (Suc k)
  then have "reaches isFatal e k"
    by (auto simp: reaches_def)
  with Suc obtain s where s: "loop_inv sel em s0 k s"
    "forLoop body (length ts) 0 s0 = forLoop body (length ts) k s"
    by auto
  from Suc.prems have ok: "\<not> isFatal k"
    "\<not> stopDuringCalls (items e k)" "\<not> stopDuringSleep (items e k)"
    by (auto simp: reaches_def)
  let ?s' = "fst (body k s)"
  have "body k s = (?s', False)"
    using spec_broke[OF sp, of k s] ok(1) by simp
  moreover have "isRunning s" using s(1) by (simp add: loop_inv_def)
  moreover have "k < length ts" using Suc.prems by simp
  ultimately have "forLoop body (length ts) k s = forLoop body (length ts) (Suc k) ?s'"
    using forLoop_next[of k "length ts" s body ?s'] by simp
  with s(2) loop_inv_step[OF sp s(1) ok] show ?case by auto
qed

lemma last_iteration:
  assumes sp: "iteration_spec body sel em isFatal e config ts"
    and "isRunning s" "k < length ts"
    and "haltsAt isFatal e config (length ts) k"
  shows "forLoop body (length ts) k s = fst (body k s)"
proof (cases "isFatal k")
  case True
  then have "body k s = (fst (body k s), True)"
    using spec_broke[OF sp, of k s] by simp
  then show ?thesis using assms(2,3) forLoop_break by metis
next
  case False
  then have "body k s = (fst (body k s), False)"
    using spec_broke[OF sp, of k s] by simp
  then have "forLoop body (length ts) k s = forLoop body (length ts) (Suc k) (fst (body k s))"
    using assms(2,3) forLoop_next by metis
  moreover have "\<not> isRunning (fst (body k s))"
    using assms(4) False by (auto simp: spec_isRunning[OF sp] haltsAt_def)
  ultimately show ?thesis by (simp add: forLoop_stopped)
qed

lemma loop_halts_at:
  assumes sp: "iteration_spec body sel em isFatal e config ts"
    and run: "isRunning s0" and start: "\<forall>ev\<in>set (calls s0). evItem ev = None"
    and k: "k < length ts"
    and reach: "reaches isFatal e k"
    and halt: "haltsAt isFatal e config (length ts) k"
  shows "\<exists>s. forLoop body (length ts) 0 s0 = fst (body k s)
           \<and> authError s = authError s0
           \<and> sel (fst (body k s)) = sel s0 @ map em [0..<Suc k]
           \<and> \<not> isRunning (fst (body k s))
           \<and> progress (fst (body k s)) = (if isFatal k then (if k = 0 then progress s0 else k) else Suc k)
           \<and> (\<forall>ev\<in>set (calls (fst (body k s))). \<forall>m. evItem ev = Some m \<longrightarrow> m \<le> k)
           \<and> (\<forall>ev\<in>set (calls (fst (body k s))). evItem ev = Some k \<and> isSleep ev \<longrightarrow>
                  \<not> isFatal k \<and> \<not> stopDuringCalls (items e k))
           \<and> set (itemCalls e config ts k) \<subseteq> set (calls (fst (body k s)))"
proof -
  from reach_loop[OF sp reach run] k obtain s where
    inv: "loop_inv sel em s0 k s"
    and eq: "forLoop body (length ts) 0 s0 = forLoop body (length ts) k s"
    by auto
  let ?s' = "fst (body k s)"
  from inv have r: "isRunning s"
    and u: "sel s = sel s0 @ map em [0..<k]"
    and a: "authError s = authError s0"
    and p: "progress s = (if k = 0 then progress s0 else k)"
    and l: "\<forall>ev\<in>set (calls s). ev \<in> set (calls s0) \<or> (\<exists>m<k. evItem ev = Some m)"
    by (simp_all add: loop_inv_def)
  have old: "m < k" if "ev \<in> set (calls s)" "evItem ev = Some m" for ev m
    using that l start by fastforce
  have 0: "forLoop body (length ts) 0 s0 = ?s'"
    using eq last_iteration[OF sp r k halt] by simp
  have 1: "sel ?s' = sel s0 @ map em [0..<Suc k]"
    using u by (simp add: spec_sel[OF sp])
  have 2: "progress ?s' = (if isFatal k then (if k = 0 then progress s0 else k) else Suc k)"
    using p by (simp add: spec_progress[OF sp])
  have 3: "\<not> isRunning ?s'"
    using halt by (auto simp: spec_isRunning[OF sp] haltsAt_def)
  have 4: "\<forall>ev\<in>set (calls ?s'). \<forall>m. evItem ev = Some m \<longrightarrow> m \<le> k"
  proof (intro ballI allI impI)
    fix ev m assume ev: "ev \<in> set (calls ?s')" "evItem ev = Some m"
    from spec_calls_cases[OF sp ev(1)]
    consider "ev \<in> set (calls s)" | "ev \<in> set (itemCalls e config ts k)"
      | "ev = sleepCall e config k" by blast
    then show "m \<le> k"
    proof cases
      case 1
      from old[OF 1 ev(2)] show ?thesis by simp
    next
      case 2
      from itemCalls_events[OF 2] ev(2) show ?thesis by simp
    next
      case 3
      with ev(2) show ?thesis by simp
    qed
  qed
  have 5: "\<forall>ev\<in>set (calls ?s'). evItem ev = Some k \<and> isSleep ev \<longrightarrow>
                  \<not> isFatal k \<and> \<not> stopDuringCalls (items e k)"
  proof (intro ballI impI)
    fix ev assume ev: "ev \<in> set (calls ?s')" "evItem ev = Some k \<and> isSleep ev"
    from spec_calls_cases[OF sp ev(1)]
    consider "ev \<in> set (calls s)" | "ev \<in> set (itemCalls e config ts k)"
      | "\<not> isFatal k \<and> \<not> stopDuringCalls (items e k)" by blast
    then show "\<not> isFatal k \<and> \<not> stopDuringCalls (items e k)"
    proof cases
      case 1
      from old[OF 1] ev(2) show ?thesis by blast
    next
      case 2
      from itemCalls_events[OF 2] ev(2) show ?thesis by simp
    next
      case 3
      then show ?thesis .
    qed
  qed
  have 6: "set (itemCalls e config ts k) \<subseteq> set (calls ?s')"
    by (auto simp: spec_calls[OF sp])
  from 0 a 1 2 3 4 5 6 show ?thesis by blast
qed

lemma loop_completes:
  assumes sp: "iteration_spec body sel em isFatal e config ts"
    and run: "isRunning s0"
    and reach: "reaches isFatal e (length ts)"
  shows "sel (forLoop body (length ts) 0 s0) = sel s0 @ map em [0..<length ts]
         \<and> authError (forLoop body (length ts) 0 s0) = authError s0
         \<and> progress (forLoop body (length ts) 0 s0) = (if ts = [] then progress s0 else length ts)"
proof -
  from reach_loop[OF sp reach run] obtain s where
    inv: "loop_inv sel em s0 (length ts) s"
    and eq: "forLoop body (length ts) 0 s0 = forLoop body (length ts) (length ts) s"
    by auto
  from eq have "forLoop body (length ts) 0 s0 = s" by (simp add: forLoop_done)
  with inv show ?thesis by (simp add: loop_inv_def)
qed

section \<open>Facts of every run of the loop\<close>



lemma sleepCall_no_history [simp]: "\<not> isHistoryCall (sleepCall e config j)"
  by (simp add: sleepCall_def)




section \<open>The throttle arithmetic\<close>





section \<open>The three bodies have the iteration property\<close>

lemma throttle_simps [simp]:
  "updates (throttle f e c n i s) = updates s"
  "results (throttle f e c n i s) = results s"
  "progress (throttle f e c n i s) = i + 1"
  "authError (throttle f e c n i s) = authError s"
  "processedCount (throttle f e c n i s) = processedCount s"
  "errorCount (throttle f e c n i s) = errorCount s"
  "isRunning (throttle f e c n i s) = (isRunning s \<and> \<not> (sleeps e c n i \<and> stopDuringSleep (items e i)))"
  "calls (throttle f e c n i s) =
     calls s @ (if isRunning s \<and> sleeps e c n i then [sleepCall e c i] else [])"
  by (auto simp: throttle_def Let_def awaitSleep_def handleStop_def sleeps_def sleepCall_def)

lemma awaitCalls_simps [simp]:
  "updates (awaitCalls f ie s) = updates s"
  "results (awaitCalls f ie s) = results s"
  "progress (awaitCalls f ie s) = progress s"
  "authError (awaitCalls f ie s) = authError s"
  "processedCount (awaitCalls f ie s) = processedCount s"
  "errorCount (awaitCalls f ie s) = errorCount s"
  "isRunning (awaitCalls f ie s) = (isRunning s \<and> \<not> stopDuringCalls ie)"
  "calls (awaitCalls f ie s) = calls s"
  by (auto simp: awaitCalls_def handleStop_def)

lemma iteration_p0_spec:
  "iteration_spec (iteration_p0 e config ts) updates (emitted_p0 e config ts) (fatalAt e config ts) e config ts"
  unfolding iteration_spec_def
  by (auto simp: iteration_p0_def tryBlock_split Let_def fatalAt_def emitted_p0_def split: sum.splits)

lemma iteration_p1_spec:
  "iteration_spec (iteration_p1 e config ts) results (emitted_p1 e config ts) (fatalAt e config ts) e config ts"
  unfolding iteration_spec_def
  by (auto simp: iteration_p1_def tryBlock_split Let_def fatalAt_def emitted_p1_def split: sum.splits)

lemma iteration_modal_spec:
  "iteration_spec (iteration_modal e config ts) results (emitted_modal e config ts) (fatalAt_modal e config ts) e config ts"
  unfolding iteration_spec_def
  by (auto simp: iteration_modal_def tryBlock_split Let_def fatalAt_modal_def emitted_modal_def split: sum.splits)

section \<open>The key normalisation\<close>

lemma replaceScan_False:
  "replaceScan False s = (if s \<noteq> [] \<and> isQuote (last s) then butlast s else s)"
  by (induction s) auto

lemma stripQuotes_spec: "stripQuotes s = spec_stripQuotes s"
  by (cases s) (auto simp: stripQuotes_def spec_stripQuotes_def replaceScan_False)

text \<open>\<open>reaches\<close> by recursion on the index, for evaluation.\<close>

lemma reaches_0 [code]: "reaches isFatal e 0 = True"
  by (simp add: reaches_def)

lemma reaches_Suc [code]:
  "reaches isFatal e (Suc k) =
     (reaches isFatal e k \<and> \<not> isFatal k \<and> \<not> stopDuringCalls (items e k)
      \<and> \<not> stopDuringSleep (items e k))"
  by (auto simp: reaches_def lessThan_Suc)

section \<open>The three \<open>startAnalysis\<close> around the loop\<close>

lemma validateApiKey_Inr: "\<exists>b. snd (validateApiKey e k) = Inr b"
  by (auto simp: validateApiKey_def Let_def split: option.splits)

lemma probeCalls_events: "ev \<in> set (probeCalls e config) \<Longrightarrow> evItem ev = None"
  by (auto simp: probeCalls_def)


lemma startAnalysis_p0_enters:
  assumes "entersLoop_p0 e config"
  shows "startAnalysis_p0 e config tickets st0 =
           Inr ((forLoop (iteration_p0 e config tickets) (length tickets) 0 (loopStart_p0 e config st0))
                  \<lparr>step := Complete, isRunning := False\<rparr>)"
  using assms
  by (cases "validateApiKey e (apiKey config)")
     (auto simp: startAnalysis_p0_def runLoop_p0_def entersLoop_p0_def probePasses_def Let_def
        loopStart_p0_def probeCalls_def)

lemma startAnalysis_p0_rejected:
  assumes "\<not> entersLoop_p0 e config"
  shows "startAnalysis_p0 e config tickets st0 = Inr (rejected_p0 e config st0)"
proof -
  obtain sent b where v: "validateApiKey e (apiKey config) = (sent, Inr b)"
    using validateApiKey_Inr[of e "apiKey config"] by (cases "validateApiKey e (apiKey config)") auto
  from assms have t: "truthy (apiKey config)" and "\<not> probePasses e config"
    by (auto simp: entersLoop_p0_def split: if_splits)
  with v have "\<not> b" by (simp add: probePasses_def)
  with v t show ?thesis
    by (simp add: startAnalysis_p0_def Let_def rejected_p0_def probeCalls_def)
qed

lemma startAnalysis_p1_enters:
  assumes "probePasses e config"
  shows "startAnalysis_p1 e config tickets st0 =
           Inr ((forLoop (iteration_p1 e config (take 50 tickets)) (length (take 50 tickets)) 0
                   (loopStart_p1 e config st0))\<lparr>step := Results, isRunning := False\<rparr>)"
  using assms
  by (cases "validateApiKey e (apiKey config)")
     (auto simp: startAnalysis_p1_def runLoop_p1_def probePasses_def Let_def
        loopStart_p1_def probeCalls_def)

lemma startAnalysis_p1_rejected:
  assumes "\<not> probePasses e config"
  shows "startAnalysis_p1 e config tickets st0 = Inr (rejected_p1 e config st0)"
proof -
  obtain sent b where v: "validateApiKey e (apiKey config) = (sent, Inr b)"
    using validateApiKey_Inr[of e "apiKey config"] by (cases "validateApiKey e (apiKey config)") auto
  with assms have "\<not> b" by (simp add: probePasses_def)
  with v show ?thesis
    by (simp add: startAnalysis_p1_def Let_def rejected_p1_def probeCalls_def)
qed

lemma startAnalysis_modal_enters:
  assumes "probePasses e config"
  shows "startAnalysis_modal e config tickets st0 =
           Inr ((forLoop (iteration_modal e config (take 50 tickets)) (length (take 50 tickets)) 0
                   (loopStart_p1 e config st0))\<lparr>step := Results, isRunning := False\<rparr>)"
  using assms
  by (cases "validateApiKey e (apiKey config)")
     (auto simp: startAnalysis_modal_def runLoop_modal_def probePasses_def Let_def
        loopStart_p1_def probeCalls_def)

lemma startAnalysis_modal_rejected:
  assumes "\<not> probePasses e config"
  shows "startAnalysis_modal e config tickets st0 = Inr (rejected_p1 e config st0)"
proof -
  obtain sent b where v: "validateApiKey e (apiKey config) = (sent, Inr b)"
    using validateApiKey_Inr[of e "apiKey config"] by (cases "validateApiKey e (apiKey config)") auto
  with assms have "\<not> b" by (simp add: probePasses_def)
  with v show ?thesis
    by (simp add: startAnalysis_modal_def Let_def rejected_p1_def probeCalls_def)
qed

lemma loopStart_p0_simps [simp]:
  "isRunning (loopStart_p0 e config st0)"
  "updates (loopStart_p0 e config st0) = []"
  "authError (loopStart_p0 e config st0) = []"
  "progress (loopStart_p0 e config st0) = 0"
  "processedCount (loopStart_p0 e config st0) = 0"
  "errorCount (loopStart_p0 e config st0) = 0"
  by (simp_all add: loopStart_p0_def)

lemma loopStart_p0_calls: "\<forall>ev\<in>set (calls (loopStart_p0 e config st0)). evItem ev = None"
  by (auto simp: loopStart_p0_def dest: probeCalls_events)


lemma loopStart_p1_simps [simp]:
  "isRunning (loopStart_p1 e config st0)"
  "results (loopStart_p1 e config st0) = []"
  "authError (loopStart_p1 e config st0) = []"
  "progress (loopStart_p1 e config st0) = 0"
  by (simp_all add: loopStart_p1_def)

lemma loopStart_p1_calls: "\<forall>ev\<in>set (calls (loopStart_p1 e config st0)). evItem ev = None"
  by (auto simp: loopStart_p1_def dest: probeCalls_events)


subsection \<open>What a fatal or a failed iteration writes\<close>

lemma iteration_p0_fatal:
  assumes "outcome e config ts i = Inl err" and "isAuthError err \<or> isRateLimit err"
  shows "iteration_p0 e config ts i s =
           (s\<lparr>currentProcessingId := Some (Ticket.ticketId (ts ! i)),
              calls := calls s @ itemCalls e config ts i,
              errorCount := errorCount s + 1,
              isRunning := False, step := Complete,
              authError := (if isRateLimit err then rateLimitBanner_p0 else authBanner_p0),
              updates := updates s @ [fatalResult_p0 (ts ! i) (isRateLimit err)]\<rparr>, True)"
  using assms
  by (simp add: iteration_p0_def tryBlock_split Let_def awaitCalls_def handleStop_def)

lemma iteration_p1_fatal:
  assumes "outcome e config ts i = Inl err" and "isAuthError err \<or> isRateLimit err"
  shows "iteration_p1 e config ts i s =
           (s\<lparr>currentProcessingId := Some (Ticket.ticketId (ts ! i)),
              calls := calls s @ itemCalls e config ts i,
              isRunning := False, step := Results,
              authError := (if isRateLimit err then rateLimitBanner_p1 else authBanner_p1),
              results := results s @ [fatalResult_p1 (ts ! i) (isRateLimit err)]\<rparr>, True)"
  using assms
  by (simp add: iteration_p1_def tryBlock_split Let_def awaitCalls_def handleStop_def)

lemma iteration_modal_fatal:
  assumes "outcome e config ts i = Inl err" and "isAuthError_modal err"
  shows "iteration_modal e config ts i s =
           (s\<lparr>currentProcessingId := Some (Ticket.ticketId (ts ! i)),
              calls := calls s @ itemCalls e config ts i,
              isRunning := False, step := Results,
              results := results s @ [fatalResult_modal (ts ! i)]\<rparr>, True)"
  using assms
  by (simp add: iteration_modal_def tryBlock_split Let_def awaitCalls_def handleStop_def)

lemma iteration_p0_failed:
  assumes "outcome e config ts i = Inl err" and "\<not> isAuthError err" "\<not> isRateLimit err"
  shows "processedCount (fst (iteration_p0 e config ts i s)) = processedCount s"
    "errorCount (fst (iteration_p0 e config ts i s)) = errorCount s + 1"
    "progress (fst (iteration_p0 e config ts i s)) = i + 1"
    "updates (fst (iteration_p0 e config ts i s)) = updates s @ [failedResult_p0 (ts ! i) err]"
    "snd (iteration_p0 e config ts i s) = False"
  using assms
  by (simp_all add: iteration_p0_def tryBlock_split Let_def)

lemma iteration_modal_failed:
  assumes "outcome e config ts i = Inl err" and "\<not> isAuthError_modal err"
  shows "results (fst (iteration_modal e config ts i s)) = results s @ [failedResult_p1 (ts ! i) err]"
    "snd (iteration_modal e config ts i s) = False"
    "authError (fst (iteration_modal e config ts i s)) = authError s"
  using assms
  by (simp_all add: iteration_modal_def tryBlock_split Let_def)

lemma iteration_p0_authError:
  "authError (fst (iteration_p0 e config ts i s)) =
     (case outcome e config ts i of
        Inr r \<Rightarrow> authError s
      | Inl err \<Rightarrow> if isRateLimit err then rateLimitBanner_p0
                   else if isAuthError err then authBanner_p0 else authError s)"
  by (auto simp: iteration_p0_def tryBlock_split Let_def split: sum.splits)


lemma iteration_modal_authError:
  "authError (fst (iteration_modal e config ts i s)) = authError s"
  by (auto simp: iteration_modal_def tryBlock_split Let_def split: sum.splits)



lemma outcome_success_ticket:
  "outcome e config ts i = Inr r \<Longrightarrow> AiAnalysisResult.ticketId r = Ticket.ticketId (ts ! i)"
  by (auto simp: outcome_def tryBlock_def analyzeTicket_def Let_def
      split: sum.splits option.splits gen_outcome.splits if_splits prod.splits)




lemma emitted_ticket:
  "AiAnalysisResult.ticketId (emitted_p0 e config ts i) = Ticket.ticketId (ts ! i)"
  "AiAnalysisResult.ticketId (emitted_p1 e config ts i) = Ticket.ticketId (ts ! i)"
  "AiAnalysisResult.ticketId (emitted_modal e config ts i) = Ticket.ticketId (ts ! i)"
  by (cases "outcome e config ts i";
      simp add: emitted_p0_def emitted_p1_def emitted_modal_def fatalResult_p0_def
        failedResult_p0_def fatalResult_p1_def failedResult_p1_def fatalResult_modal_def
        Let_def outcome_success_ticket)+

section \<open>Runs that end in a given iteration, and runs that go through\<close>

lemma run_halts_p0:
  assumes enter: "entersLoop_p0 e config"
    and k: "k < length tickets"
    and reach: "reaches (fatalAt e config tickets) e k"
    and halt: "haltsAt (fatalAt e config tickets) e config (length tickets) k"
  shows "\<exists>st. startAnalysis_p0 e config tickets st0 = Inr st
           \<and> updates st = map (emitted_p0 e config tickets) [0..<Suc k]
           \<and> step st = Complete \<and> \<not> isRunning st
           \<and> progress st = (if fatalAt e config tickets k then k else Suc k)
           \<and> authError st = (case outcome e config tickets k of
                                Inr r \<Rightarrow> []
                              | Inl err \<Rightarrow> if isRateLimit err then rateLimitBanner_p0
                                           else if isAuthError err then authBanner_p0 else [])
           \<and> (\<forall>ev\<in>set (calls st). \<forall>m. evItem ev = Some m \<longrightarrow> m \<le> k)
           \<and> (\<forall>ev\<in>set (calls st). evItem ev = Some k \<and> isSleep ev \<longrightarrow>
                  \<not> fatalAt e config tickets k \<and> \<not> stopDuringCalls (items e k))
           \<and> set (itemCalls e config tickets k) \<subseteq> set (calls st)"
proof -
  let ?body = "iteration_p0 e config tickets"
  let ?s0 = "loopStart_p0 e config st0"
  have "isRunning ?s0" by simp
  from loop_halts_at[OF iteration_p0_spec this loopStart_p0_calls k reach halt]
  obtain s where L: "forLoop ?body (length tickets) 0 ?s0 = fst (?body k s)"
    and a: "authError s = []"
    and u: "updates (fst (?body k s)) = map (emitted_p0 e config tickets) [0..<Suc k]"
    and p: "progress (fst (?body k s)) = (if fatalAt e config tickets k then k else Suc k)"
    and c1: "\<forall>ev\<in>set (calls (fst (?body k s))). \<forall>m. evItem ev = Some m \<longrightarrow> m \<le> k"
    and c2: "\<forall>ev\<in>set (calls (fst (?body k s))). evItem ev = Some k \<and> isSleep ev \<longrightarrow>
                  \<not> fatalAt e config tickets k \<and> \<not> stopDuringCalls (items e k)"
    and c3: "set (itemCalls e config tickets k) \<subseteq> set (calls (fst (?body k s)))"
    by (auto split: if_splits)
  let ?st = "(fst (?body k s))\<lparr>step := Complete, isRunning := False\<rparr>"
  have run: "startAnalysis_p0 e config tickets st0 = Inr ?st"
    using startAnalysis_p0_enters[OF enter, of tickets st0] L by simp
  have au: "authError ?st = (case outcome e config tickets k of
                                Inr r \<Rightarrow> []
                              | Inl err \<Rightarrow> if isRateLimit err then rateLimitBanner_p0
                                           else if isAuthError err then authBanner_p0 else [])"
    using a by (simp add: iteration_p0_authError split: sum.splits)
  from run u p c1 c2 c3 au show ?thesis by simp
qed



lemma run_halts_modal:
  assumes enter: "probePasses e config"
    and k: "k < length (take 50 tickets)"
    and reach: "reaches (fatalAt_modal e config (take 50 tickets)) e k"
    and halt: "haltsAt (fatalAt_modal e config (take 50 tickets)) e config (length (take 50 tickets)) k"
  shows "\<exists>st. startAnalysis_modal e config tickets st0 = Inr st
           \<and> results st = map (emitted_modal e config (take 50 tickets)) [0..<Suc k]
           \<and> step st = Results \<and> \<not> isRunning st
           \<and> progress st = (if fatalAt_modal e config (take 50 tickets) k then k else Suc k)
           \<and> authError st = []
           \<and> (\<forall>ev\<in>set (calls st). \<forall>m. evItem ev = Some m \<longrightarrow> m \<le> k)
           \<and> (\<forall>ev\<in>set (calls st). evItem ev = Some k \<and> isSleep ev \<longrightarrow>
                  \<not> fatalAt_modal e config (take 50 tickets) k \<and> \<not> stopDuringCalls (items e k))
           \<and> set (itemCalls e config (take 50 tickets) k) \<subseteq> set (calls st)"
proof -
  let ?ts = "take 50 tickets"
  let ?body = "iteration_modal e config ?ts"
  let ?s0 = "loopStart_p1 e config st0"
  have "isRunning ?s0" by simp
  from loop_halts_at[OF iteration_modal_spec this loopStart_p1_calls k reach halt]
  obtain s where L: "forLoop ?body (length ?ts) 0 ?s0 = fst (?body k s)"
    and a: "authError s = []"
    and u: "results (fst (?body k s)) = map (emitted_modal e config ?ts) [0..<Suc k]"
    and p: "progress (fst (?body k s)) = (if fatalAt_modal e config ?ts k then k else Suc k)"
    and c1: "\<forall>ev\<in>set (calls (fst (?body k s))). \<forall>m. evItem ev = Some m \<longrightarrow> m \<le> k"
    and c2: "\<forall>ev\<in>set (calls (fst (?body k s))). evItem ev = Some k \<and> isSleep ev \<longrightarrow>
                  \<not> fatalAt_modal e config ?ts k \<and> \<not> stopDuringCalls (items e k)"
    and c3: "set (itemCalls e config ?ts k) \<subseteq> set (calls (fst (?body k s)))"
    by (auto split: if_splits)
  let ?st = "(fst (?body k s))\<lparr>step := Results, isRunning := False\<rparr>"
  have run: "startAnalysis_modal e config tickets st0 = Inr ?st"
    using startAnalysis_modal_enters[OF enter, of tickets st0] L by simp
  have au: "authError ?st = []"
    using a by (simp add: iteration_modal_authError)
  from run u p c1 c2 c3 au show ?thesis by simp
qed

lemma run_completes_p0:
  assumes enter: "entersLoop_p0 e config"
    and reach: "reaches (fatalAt e config tickets) e (length tickets)"
  shows "\<exists>st. startAnalysis_p0 e config tickets st0 = Inr st
           \<and> updates st = map (emitted_p0 e config tickets) [0..<length tickets]
           \<and> step st = Complete \<and> \<not> isRunning st
           \<and> progress st = length tickets \<and> authError st = []"
proof -
  have "isRunning (loopStart_p0 e config st0)" by simp
  from loop_completes[OF iteration_p0_spec this reach] startAnalysis_p0_enters[OF enter, of tickets st0]
  show ?thesis by auto
qed

lemma run_completes_p1:
  assumes enter: "probePasses e config"
    and reach: "reaches (fatalAt e config (take 50 tickets)) e (length (take 50 tickets))"
  shows "\<exists>st. startAnalysis_p1 e config tickets st0 = Inr st
           \<and> results st = map (emitted_p1 e config (take 50 tickets)) [0..<length (take 50 tickets)]
           \<and> step st = Results \<and> \<not> isRunning st
           \<and> progress st = length (take 50 tickets) \<and> authError st = []"
proof -
  have "isRunning (loopStart_p1 e config st0)" by simp
  from loop_completes[OF iteration_p1_spec this reach] startAnalysis_p1_enters[OF enter, of tickets st0]
  show ?thesis by auto
qed

text \<open>
  The loop only adds calls, and every call it adds belongs to an item.
\<close>

lemma loop_calls_extend:
  assumes sp: "iteration_spec body sel em isFatal e config ts"
  shows "\<exists>evs. calls (forLoop body (length ts) 0 s0) = calls s0 @ evs
           \<and> (\<forall>ev\<in>set evs. evItem ev \<noteq> None)"
proof (rule forLoop_rule[where P = "\<lambda>j s. \<exists>evs. calls s = calls s0 @ evs \<and> (\<forall>ev\<in>set evs. evItem ev \<noteq> None)"
        and Q = "\<lambda>s. \<exists>evs. calls s = calls s0 @ evs \<and> (\<forall>ev\<in>set evs. evItem ev \<noteq> None)"])
  show "\<exists>evs. calls s0 = calls s0 @ evs \<and> (\<forall>ev\<in>set evs. evItem ev \<noteq> None)" by simp
next
  fix j s s' broke
  assume P: "\<exists>evs. calls s = calls s0 @ evs \<and> (\<forall>ev\<in>set evs. evItem ev \<noteq> None)"
    and b: "body j s = (s', broke)"
  from P obtain evs where evs: "calls s = calls s0 @ evs" "\<forall>ev\<in>set evs. evItem ev \<noteq> None" by blast
  from b have s': "s' = fst (body j s)" by simp
  let ?new = "itemCalls e config ts j @
       (if isRunning s \<and> \<not> isFatal j \<and> \<not> stopDuringCalls (items e j)
           \<and> sleeps e config (length ts) j
        then [sleepCall e config j] else [])"
  have "calls s' = calls s0 @ (evs @ ?new)"
    using evs(1) s' by (simp add: spec_calls[OF sp])
  moreover have "\<forall>ev\<in>set (evs @ ?new). evItem ev \<noteq> None"
    using evs(2) itemCalls_events[of _ e config ts j] by auto
  ultimately have "\<exists>evs. calls s' = calls s0 @ evs \<and> (\<forall>ev\<in>set evs. evItem ev \<noteq> None)"
    by blast
  then show "if broke then \<exists>evs. calls s' = calls s0 @ evs \<and> (\<forall>ev\<in>set evs. evItem ev \<noteq> None)
        else \<exists>evs. calls s' = calls s0 @ evs \<and> (\<forall>ev\<in>set evs. evItem ev \<noteq> None)" by simp
qed

lemma probeCalls_short: "length (probeCalls e config) \<le> 1"
  by (auto simp: probeCalls_def validateApiKey_def Let_def split: option.splits)

lemma entered_calls_p0:
  assumes "entersLoop_p0 e config"
  shows "\<exists>st evs. startAnalysis_p0 e config tickets st0 = Inr st
           \<and> calls st = (if truthy (apiKey config) then probeCalls e config else []) @ evs
           \<and> (\<forall>ev\<in>set evs. evItem ev \<noteq> None)"
proof -
  from loop_calls_extend[OF iteration_p0_spec, of e config tickets "loopStart_p0 e config st0"]
  obtain evs where "calls (forLoop (iteration_p0 e config tickets) (length tickets) 0 (loopStart_p0 e config st0))
      = calls (loopStart_p0 e config st0) @ evs" "\<forall>ev\<in>set evs. evItem ev \<noteq> None"
    by blast
  then show ?thesis
    using startAnalysis_p0_enters[OF assms, of tickets st0]
    by (auto simp: loopStart_p0_def)
qed

lemma entered_calls_p1:
  assumes "probePasses e config"
  shows "\<exists>st evs. startAnalysis_p1 e config tickets st0 = Inr st
           \<and> calls st = probeCalls e config @ evs \<and> (\<forall>ev\<in>set evs. evItem ev \<noteq> None)"
proof -
  from loop_calls_extend[OF iteration_p1_spec, of e config "take 50 tickets" "loopStart_p1 e config st0"]
  obtain evs where "calls (forLoop (iteration_p1 e config (take 50 tickets)) (length (take 50 tickets)) 0
        (loopStart_p1 e config st0)) = calls (loopStart_p1 e config st0) @ evs"
    "\<forall>ev\<in>set evs. evItem ev \<noteq> None"
    by blast
  then show ?thesis
    using startAnalysis_p1_enters[OF assms, of tickets st0]
    by (auto simp: loopStart_p1_def)
qed

lemma entered_calls_modal:
  assumes "probePasses e config"
  shows "\<exists>st evs. startAnalysis_modal e config tickets st0 = Inr st
           \<and> calls st = probeCalls e config @ evs \<and> (\<forall>ev\<in>set evs. evItem ev \<noteq> None)"
proof -
  from loop_calls_extend[OF iteration_modal_spec, of e config "take 50 tickets" "loopStart_p1 e config st0"]
  obtain evs where "calls (forLoop (iteration_modal e config (take 50 tickets)) (length (take 50 tickets)) 0
        (loopStart_p1 e config st0)) = calls (loopStart_p1 e config st0) @ evs"
    "\<forall>ev\<in>set evs. evItem ev \<noteq> None"
    by blast
  then show ?thesis
    using startAnalysis_modal_enters[OF assms, of tickets st0]
    by (auto simp: loopStart_p1_def)
qed









section \<open>The claims\<close>

text \<open>
  \<^bold>\<open>C1\<close>, as the code has it. In the version that reports through \<open>onAnalysisUpdate\<close>, when
  the loop gets to item \<open>k\<close> and processing it fails with a signal whose status is 429 or
  whose lower-cased message contains "429", "quota", "too many requests" or "resource
  exhausted" (\<open>isRateLimit\<close>), the result made up for item \<open>k\<close> carries the error
  "429 Quota Exceeded" and is the last one handed out, the loop ends there with no sleep
  and no call for a later item, and \<open>authError\<close> shows the rate-limit banner. The words
  "rate limit" are not among those tested.
\<close>

theorem rate_limit_failure_halts:
  assumes enter: "entersLoop_p0 e config"
    and k: "k < length tickets"
    and reach: "reaches (fatalAt e config tickets) e k"
    and fail: "outcome e config tickets k = Inl err"
    and signal: "isRateLimit err"
  shows "\<exists>st. startAnalysis_p0 e config tickets st0 = Inr st
           \<and> updates st = map (emitted_p0 e config tickets) [0..<k] @ [fatalResult_p0 (tickets ! k) True]
           \<and> error (fatalResult_p0 (tickets ! k) True) = Some ''429 Quota Exceeded''
           \<and> AiAnalysisResult.ticketId (fatalResult_p0 (tickets ! k) True) = Ticket.ticketId (tickets ! k)
           \<and> authError st = rateLimitBanner_p0 \<and> step st = Complete \<and> \<not> isRunning st
           \<and> progress st = k
           \<and> (\<forall>ev\<in>set (calls st). \<forall>m. evItem ev = Some m \<longrightarrow> m \<le> k)
           \<and> (\<forall>ev\<in>set (calls st). evItem ev = Some k \<longrightarrow> \<not> isSleep ev)"
proof -
  have f: "fatalAt e config tickets k"
    using fail signal by (simp add: fatalAt_def)
  then have halt: "haltsAt (fatalAt e config tickets) e config (length tickets) k"
    by (simp add: haltsAt_def)
  from run_halts_p0[OF enter k reach halt, of st0] obtain st where
    run: "startAnalysis_p0 e config tickets st0 = Inr st"
    and u: "updates st = map (emitted_p0 e config tickets) [0..<Suc k]"
    and s: "step st = Complete" "\<not> isRunning st"
    and p: "progress st = (if fatalAt e config tickets k then k else Suc k)"
    and a: "authError st = (case outcome e config tickets k of
                                Inr r \<Rightarrow> []
                              | Inl err \<Rightarrow> if isRateLimit err then rateLimitBanner_p0
                                           else if isAuthError err then authBanner_p0 else [])"
    and c1: "\<forall>ev\<in>set (calls st). \<forall>m. evItem ev = Some m \<longrightarrow> m \<le> k"
    and c2: "\<forall>ev\<in>set (calls st). evItem ev = Some k \<and> isSleep ev \<longrightarrow>
                  \<not> fatalAt e config tickets k \<and> \<not> stopDuringCalls (items e k)"
    by blast
  have em: "emitted_p0 e config tickets k = fatalResult_p0 (tickets ! k) True"
    using fail signal by (simp add: emitted_p0_def)
  have 1: "updates st = map (emitted_p0 e config tickets) [0..<k] @ [fatalResult_p0 (tickets ! k) True]"
    using u em by simp
  have 2: "authError st = rateLimitBanner_p0" using a fail signal by simp
  have 3: "progress st = k" using p f by simp
  have 4: "\<forall>ev\<in>set (calls st). evItem ev = Some k \<longrightarrow> \<not> isSleep ev"
    using c2 f by blast
  have 5: "error (fatalResult_p0 (tickets ! k) True) = Some ''429 Quota Exceeded''"
    "AiAnalysisResult.ticketId (fatalResult_p0 (tickets ! k) True) = Ticket.ticketId (tickets ! k)"
    by (simp_all add: fatalResult_p0_def)
  from run 1 2 3 4 5 s c1 show ?thesis by blast
qed

theorem rate_limit_failure_halts_witness:
  "entersLoop_p0 quotaAtThird config0 \<and> 2 < length fiveTickets
   \<and> reaches (fatalAt quotaAtThird config0 fiveTickets) quotaAtThird 2
   \<and> outcome quotaAtThird config0 fiveTickets 2 = Inl quotaErr \<and> isRateLimit quotaErr
   \<and> (\<exists>st. startAnalysis_p0 quotaAtThird config0 fiveTickets opened = Inr st
         \<and> length (updates st) = 3 \<and> authError st = rateLimitBanner_p0 \<and> progress st = 2)"
proof -
  have h1: "entersLoop_p0 quotaAtThird config0" by code_simp
  have h2: "2 < length fiveTickets" by code_simp
  have h3: "reaches (fatalAt quotaAtThird config0 fiveTickets) quotaAtThird 2" by code_simp
  have h4: "outcome quotaAtThird config0 fiveTickets 2 = Inl quotaErr" by code_simp
  have h5: "isRateLimit quotaErr" by code_simp
  from rate_limit_failure_halts[OF h1 h2 h3 h4 h5, of opened] obtain st where
    "startAnalysis_p0 quotaAtThird config0 fiveTickets opened = Inr st"
    "updates st = map (emitted_p0 quotaAtThird config0 fiveTickets) [0..<2]
        @ [fatalResult_p0 (fiveTickets ! 2) True]"
    "authError st = rateLimitBanner_p0" "progress st = 2"
    by blast
  then have "\<exists>st. startAnalysis_p0 quotaAtThird config0 fiveTickets opened = Inr st
         \<and> length (updates st) = 3 \<and> authError st = rateLimitBanner_p0 \<and> progress st = 2"
    by simp
  with h1 h2 h3 h4 h5 show ?thesis by blast
qed

text \<open>
  The claim as stated fails: the message "Rate limit reached" (no status) is a rate-limit
  signal in the specification's list, yet the run takes it for a per-ticket failure and goes
  on to the second ticket with an empty \<open>authError\<close>; and components/AiAnalysisModal.tsx,
  which has no rate-limit test, does the same with a 429 whose message speaks of a quota.
\<close>

theorem rate_limit_words_counterexample:
  "spec_rateLimitSignal rateLimitWordsErr
   \<and> \<not> isl rateLimitWordsRun
   \<and> authError (projr rateLimitWordsRun) = []
   \<and> length (updates (projr rateLimitWordsRun)) = 2
   \<and> error (updates (projr rateLimitWordsRun) ! 0) = Some ''Rate limit reached''
   \<and> HistoryCall 1 2 \<in> set (calls (projr rateLimitWordsRun))
   \<and> spec_rateLimitSignal quotaErr
   \<and> \<not> isl quotaRun_modal
   \<and> authError (projr quotaRun_modal) = []
   \<and> length (results (projr quotaRun_modal)) = 2
   \<and> error (results (projr quotaRun_modal) ! 0) = Some ''Quota exceeded for this model''
   \<and> HistoryCall 1 2 \<in> set (calls (projr quotaRun_modal))"
  by code_simp

text \<open>
  \<^bold>\<open>C2\<close>, as the code has it. In the version that reports through \<open>onAnalysisUpdate\<close>, when
  the loop gets to item \<open>k\<close> (counted from 0) and the item fails with an auth signal (status
  401, or a message containing "api key" or "unauthorized", in any case of letters) that is
  not a rate-limit signal as well, exactly \<open>k + 1\<close> results have been handed out, the last
  one the made-up result of item \<open>k\<close> with the error "401 Unauthorized"; no call is made for
  a later item, and \<open>authError\<close> shows the auth banner.
\<close>

theorem auth_failure_halts:
  assumes enter: "entersLoop_p0 e config"
    and k: "k < length tickets"
    and reach: "reaches (fatalAt e config tickets) e k"
    and fail: "outcome e config tickets k = Inl err"
    and signal: "spec_authSignal err"
    and other: "\<not> isRateLimit err"
  shows "\<exists>st. startAnalysis_p0 e config tickets st0 = Inr st
           \<and> length (updates st) = k + 1
           \<and> updates st = map (emitted_p0 e config tickets) [0..<k] @ [fatalResult_p0 (tickets ! k) False]
           \<and> error (fatalResult_p0 (tickets ! k) False) = Some ''401 Unauthorized''
           \<and> AiAnalysisResult.ticketId (fatalResult_p0 (tickets ! k) False) = Ticket.ticketId (tickets ! k)
           \<and> authError st = authBanner_p0 \<and> step st = Complete \<and> \<not> isRunning st
           \<and> (\<forall>ev\<in>set (calls st). \<forall>m. evItem ev = Some m \<longrightarrow> m \<le> k)"
proof -
  have au: "isAuthError err"
    using signal by (auto simp: spec_authSignal_def isAuthError_def errStatus_def)
  have f: "fatalAt e config tickets k"
    using fail au by (simp add: fatalAt_def)
  then have halt: "haltsAt (fatalAt e config tickets) e config (length tickets) k"
    by (simp add: haltsAt_def)
  from run_halts_p0[OF enter k reach halt, of st0] obtain st where
    run: "startAnalysis_p0 e config tickets st0 = Inr st"
    and u: "updates st = map (emitted_p0 e config tickets) [0..<Suc k]"
    and s: "step st = Complete" "\<not> isRunning st"
    and a: "authError st = (case outcome e config tickets k of
                                Inr r \<Rightarrow> []
                              | Inl err \<Rightarrow> if isRateLimit err then rateLimitBanner_p0
                                           else if isAuthError err then authBanner_p0 else [])"
    and c1: "\<forall>ev\<in>set (calls st). \<forall>m. evItem ev = Some m \<longrightarrow> m \<le> k"
    by blast
  have em: "emitted_p0 e config tickets k = fatalResult_p0 (tickets ! k) False"
    using fail au other by (simp add: emitted_p0_def)
  have 1: "updates st = map (emitted_p0 e config tickets) [0..<k] @ [fatalResult_p0 (tickets ! k) False]"
    using u em by simp
  then have 2: "length (updates st) = k + 1" by simp
  have 3: "authError st = authBanner_p0" using a fail au other by simp
  have 4: "error (fatalResult_p0 (tickets ! k) False) = Some ''401 Unauthorized''"
    "AiAnalysisResult.ticketId (fatalResult_p0 (tickets ! k) False) = Ticket.ticketId (tickets ! k)"
    by (simp_all add: fatalResult_p0_def)
  from run 1 2 3 4 s c1 show ?thesis by blast
qed

theorem auth_failure_halts_witness:
  "entersLoop_p0 unauthorizedAtSecond config0 \<and> 1 < length fiveTickets
   \<and> reaches (fatalAt unauthorizedAtSecond config0 fiveTickets) unauthorizedAtSecond 1
   \<and> outcome unauthorizedAtSecond config0 fiveTickets 1 = Inl unauthorizedErr
   \<and> spec_authSignal unauthorizedErr \<and> \<not> isRateLimit unauthorizedErr
   \<and> (\<exists>st. startAnalysis_p0 unauthorizedAtSecond config0 fiveTickets opened = Inr st
         \<and> length (updates st) = 2 \<and> authError st = authBanner_p0)"
proof -
  have h1: "entersLoop_p0 unauthorizedAtSecond config0" by code_simp
  have h2: "1 < length fiveTickets" by code_simp
  have h3: "reaches (fatalAt unauthorizedAtSecond config0 fiveTickets) unauthorizedAtSecond 1"
    by code_simp
  have h4: "outcome unauthorizedAtSecond config0 fiveTickets 1 = Inl unauthorizedErr" by code_simp
  have h5: "spec_authSignal unauthorizedErr" by code_simp
  have h6: "\<not> isRateLimit unauthorizedErr" by code_simp
  from auth_failure_halts[OF h1 h2 h3 h4 h5 h6, of opened]
  have "\<exists>st. startAnalysis_p0 unauthorizedAtSecond config0 fiveTickets opened = Inr st
         \<and> length (updates st) = 2 \<and> authError st = authBanner_p0"
    by auto
  with h1 h2 h3 h4 h5 h6 show ?thesis by blast
qed

text \<open>
  The claim as stated fails: a 401 on the first ticket (\<open>k = 0\<close>) leaves one result, not
  none; a 401 whose message contains "quota" ends the run under the rate-limit banner; and
  components/AiAnalysisModal.tsx, which reads the message only and as written, takes
  "Unauthorized" with status 401 for a per-ticket failure and goes on to the second ticket.
\<close>

theorem auth_failure_counterexample:
  "spec_authSignal unauthorizedErr
   \<and> \<not> isl unauthorizedFirstRun
   \<and> length (updates (projr unauthorizedFirstRun)) = 1
   \<and> authError (projr unauthorizedFirstRun) = authBanner_p0
   \<and> spec_authSignal keyQuotaErr
   \<and> \<not> isl keyQuotaRun
   \<and> length (updates (projr keyQuotaRun)) = 1
   \<and> authError (projr keyQuotaRun) = rateLimitBanner_p0
   \<and> \<not> isl unauthorizedRun_modal
   \<and> length (results (projr unauthorizedRun_modal)) = 2
   \<and> HistoryCall 1 2 \<in> set (calls (projr unauthorizedRun_modal))
   \<and> authError (projr unauthorizedRun_modal) = []"
  by code_simp

text \<open>
  \<^bold>\<open>C3\<close>, as the code has it. Whenever an iteration that the loop enters fails with a fatal
  signal (\<open>isAuthError\<close> or \<open>isRateLimit\<close>), the loop of \<open>p0\<close> and of \<open>p1\<close> ends in that
  iteration, and its final state is the state at the start of the iteration with these
  writes: the made-up result tagged with the reason is handed out, \<open>isRunning\<close> is false,
  the step is the last one and \<open>authError\<close> is the banner of the reason. The calls of the
  iteration are those of its \<open>try\<close> block, so no sleep follows, and no later item is
  started. \<open>processedCount\<close> and \<open>progress\<close> stay as they were: \<open>p0\<close> counts the failure in
  \<open>errorCount\<close>, and the \<open>break\<close> passes over \<open>setProgress\<close>.
\<close>

theorem fatal_stops_loop:
  assumes i: "i < length ts" and run: "isRunning s"
    and fail: "outcome e config ts i = Inl err"
    and fatal: "isAuthError err \<or> isRateLimit err"
  shows "forLoop (iteration_p0 e config ts) (length ts) i s =
           s\<lparr>currentProcessingId := Some (Ticket.ticketId (ts ! i)),
              calls := calls s @ itemCalls e config ts i,
              errorCount := errorCount s + 1,
              isRunning := False, step := Complete,
              authError := (if isRateLimit err then rateLimitBanner_p0 else authBanner_p0),
              updates := updates s @ [fatalResult_p0 (ts ! i) (isRateLimit err)]\<rparr>
         \<and> processedCount (forLoop (iteration_p0 e config ts) (length ts) i s) = processedCount s
         \<and> progress (forLoop (iteration_p0 e config ts) (length ts) i s) = progress s
         \<and> forLoop (iteration_p1 e config ts) (length ts) i s =
           s\<lparr>currentProcessingId := Some (Ticket.ticketId (ts ! i)),
              calls := calls s @ itemCalls e config ts i,
              isRunning := False, step := Results,
              authError := (if isRateLimit err then rateLimitBanner_p1 else authBanner_p1),
              results := results s @ [fatalResult_p1 (ts ! i) (isRateLimit err)]\<rparr>
         \<and> progress (forLoop (iteration_p1 e config ts) (length ts) i s) = progress s
         \<and> (\<forall>ev\<in>set (itemCalls e config ts i). evItem ev = Some i \<and> \<not> isSleep ev)
         \<and> error (fatalResult_p0 (ts ! i) (isRateLimit err))
             = Some (if isRateLimit err then ''429 Quota Exceeded'' else ''401 Unauthorized'')
         \<and> error (fatalResult_p1 (ts ! i) (isRateLimit err))
             = Some (if isRateLimit err then ''Rate Limit Exceeded (429)'' else ''Critical Auth Error'')"
proof -
  have 0: "forLoop (iteration_p0 e config ts) (length ts) i s =
           s\<lparr>currentProcessingId := Some (Ticket.ticketId (ts ! i)),
              calls := calls s @ itemCalls e config ts i,
              errorCount := errorCount s + 1,
              isRunning := False, step := Complete,
              authError := (if isRateLimit err then rateLimitBanner_p0 else authBanner_p0),
              updates := updates s @ [fatalResult_p0 (ts ! i) (isRateLimit err)]\<rparr>"
    using i run iteration_p0_fatal[OF fail fatal, of s] by (simp add: forLoop.simps)
  have 1: "forLoop (iteration_p1 e config ts) (length ts) i s =
           s\<lparr>currentProcessingId := Some (Ticket.ticketId (ts ! i)),
              calls := calls s @ itemCalls e config ts i,
              isRunning := False, step := Results,
              authError := (if isRateLimit err then rateLimitBanner_p1 else authBanner_p1),
              results := results s @ [fatalResult_p1 (ts ! i) (isRateLimit err)]\<rparr>"
    using i run iteration_p1_fatal[OF fail fatal, of s] by (simp add: forLoop.simps)
  have 2: "processedCount (forLoop (iteration_p0 e config ts) (length ts) i s) = processedCount s"
    "progress (forLoop (iteration_p0 e config ts) (length ts) i s) = progress s"
    by (simp_all add: 0)
  have 3: "progress (forLoop (iteration_p1 e config ts) (length ts) i s) = progress s"
    by (simp add: 1)
  have 4: "\<forall>ev\<in>set (itemCalls e config ts i). evItem ev = Some i \<and> \<not> isSleep ev"
    using itemCalls_events by blast
  have 5: "error (fatalResult_p0 (ts ! i) (isRateLimit err))
             = Some (if isRateLimit err then ''429 Quota Exceeded'' else ''401 Unauthorized'')"
    "error (fatalResult_p1 (ts ! i) (isRateLimit err))
             = Some (if isRateLimit err then ''Rate Limit Exceeded (429)'' else ''Critical Auth Error'')"
    by (simp_all add: fatalResult_p0_def fatalResult_p1_def Let_def)
  from 0 1 2 3 4 5 show ?thesis by blast
qed

theorem fatal_stops_loop_witness:
  "0 < length (map mkTicket [1, 2]) \<and> isRunning (loopStart_p0 unauthorizedFirst config0 opened)
   \<and> outcome unauthorizedFirst config0 (map mkTicket [1, 2]) 0 = Inl unauthorizedErr
   \<and> (isAuthError unauthorizedErr \<or> isRateLimit unauthorizedErr)
   \<and> processedCount (forLoop (iteration_p0 unauthorizedFirst config0 (map mkTicket [1, 2]))
        (length (map mkTicket [1, 2])) 0 (loopStart_p0 unauthorizedFirst config0 opened)) = 0
   \<and> progress (forLoop (iteration_p1 unauthorizedFirst config0 (map mkTicket [1, 2]))
        (length (map mkTicket [1, 2])) 0 (loopStart_p0 unauthorizedFirst config0 opened)) = 0"
proof -
  have h1: "0 < length (map mkTicket [1, 2])" by simp
  have h2: "isRunning (loopStart_p0 unauthorizedFirst config0 opened)" by simp
  have h3: "outcome unauthorizedFirst config0 (map mkTicket [1, 2]) 0 = Inl unauthorizedErr"
    by code_simp
  have h4: "isAuthError unauthorizedErr \<or> isRateLimit unauthorizedErr" by code_simp
  from fatal_stops_loop[OF h1 h2 h3 h4] h1 h2 h3 h4 show ?thesis
    by simp
qed

text \<open>
  The claim as stated fails on the count: after a 401 on the first ticket one result has been
  handed out, and \<open>processedCount\<close> and \<open>progress\<close> are both 0; \<open>errorCount\<close> is 1.
\<close>

theorem fatal_counts_counterexample:
  "(isAuthError unauthorizedErr \<or> isRateLimit unauthorizedErr)
   \<and> \<not> isl unauthorizedFirstRun
   \<and> length (updates (projr unauthorizedFirstRun)) = 1
   \<and> processedCount (projr unauthorizedFirstRun) = 0
   \<and> progress (projr unauthorizedFirstRun) = 0
   \<and> errorCount (projr unauthorizedFirstRun) = 1"
  by code_simp

text \<open>
  \<^bold>\<open>C4\<close>, as the code has it. \<open>p1\<close> and components/AiAnalysisModal.tsx call \<open>validateApiKey\<close>
  once before the loop in every run; \<open>p0\<close> calls it only when a key is typed into the
  configuration, and with no key typed in it enters the loop with no probe at all. Where the
  probe is made it comes first in the log (at most one call to the model service), and it is
  followed by calls of items only. Where the probe says no, the run ends there: the log
  holds the probe alone, no item is started, no result is handed out, the step stays what it
  was, and \<open>authError\<close> holds the connection message.
\<close>

theorem probe_before_loop:
  "(if probePasses e config
    then (\<exists>st evs. startAnalysis_p1 e config tickets st0 = Inr st
             \<and> calls st = probeCalls e config @ evs \<and> (\<forall>ev\<in>set evs. evItem ev \<noteq> None))
       \<and> (\<exists>st evs. startAnalysis_modal e config tickets st0 = Inr st
             \<and> calls st = probeCalls e config @ evs \<and> (\<forall>ev\<in>set evs. evItem ev \<noteq> None))
    else startAnalysis_p1 e config tickets st0 = Inr (rejected_p1 e config st0)
       \<and> startAnalysis_modal e config tickets st0 = Inr (rejected_p1 e config st0))
   \<and> (if truthy (apiKey config)
       then (if probePasses e config
             then (\<exists>st evs. startAnalysis_p0 e config tickets st0 = Inr st
                     \<and> calls st = probeCalls e config @ evs \<and> (\<forall>ev\<in>set evs. evItem ev \<noteq> None))
             else startAnalysis_p0 e config tickets st0 = Inr (rejected_p0 e config st0))
       else (\<exists>st. startAnalysis_p0 e config tickets st0 = Inr st
               \<and> (\<forall>ev\<in>set (calls st). evItem ev \<noteq> None)))
   \<and> length (probeCalls e config) \<le> 1
   \<and> (\<forall>ev\<in>set (probeCalls e config). evItem ev = None)
   \<and> calls (rejected_p1 e config st0) = probeCalls e config
   \<and> results (rejected_p1 e config st0) = results st0
   \<and> step (rejected_p1 e config st0) = step st0
   \<and> authError (rejected_p1 e config st0) = connectionFailed_p1
   \<and> calls (rejected_p0 e config st0) = probeCalls e config
   \<and> updates (rejected_p0 e config st0) = []
   \<and> step (rejected_p0 e config st0) = step st0"
proof -
  have A: "if probePasses e config
    then (\<exists>st evs. startAnalysis_p1 e config tickets st0 = Inr st
             \<and> calls st = probeCalls e config @ evs \<and> (\<forall>ev\<in>set evs. evItem ev \<noteq> None))
       \<and> (\<exists>st evs. startAnalysis_modal e config tickets st0 = Inr st
             \<and> calls st = probeCalls e config @ evs \<and> (\<forall>ev\<in>set evs. evItem ev \<noteq> None))
    else startAnalysis_p1 e config tickets st0 = Inr (rejected_p1 e config st0)
       \<and> startAnalysis_modal e config tickets st0 = Inr (rejected_p1 e config st0)"
    using entered_calls_p1[of e config tickets st0] entered_calls_modal[of e config tickets st0]
      startAnalysis_p1_rejected[of e config tickets st0]
      startAnalysis_modal_rejected[of e config tickets st0]
    by simp
  have B: "if truthy (apiKey config)
       then (if probePasses e config
             then (\<exists>st evs. startAnalysis_p0 e config tickets st0 = Inr st
                     \<and> calls st = probeCalls e config @ evs \<and> (\<forall>ev\<in>set evs. evItem ev \<noteq> None))
             else startAnalysis_p0 e config tickets st0 = Inr (rejected_p0 e config st0))
       else (\<exists>st. startAnalysis_p0 e config tickets st0 = Inr st
               \<and> (\<forall>ev\<in>set (calls st). evItem ev \<noteq> None))"
  proof (cases "truthy (apiKey config)")
    case True
    show ?thesis
    proof (cases "probePasses e config")
      case p: True
      then have "entersLoop_p0 e config" by (simp add: entersLoop_p0_def)
      from entered_calls_p0[OF this, of tickets st0] True p show ?thesis by simp
    next
      case p: False
      with True have "\<not> entersLoop_p0 e config" by (simp add: entersLoop_p0_def)
      from startAnalysis_p0_rejected[OF this, of tickets st0] True p show ?thesis by simp
    qed
  next
    case False
    then have "entersLoop_p0 e config" by (simp add: entersLoop_p0_def)
    from entered_calls_p0[OF this, of tickets st0] False show ?thesis by auto
  qed
  have C: "length (probeCalls e config) \<le> 1" by (rule probeCalls_short)
  have D: "\<forall>ev\<in>set (probeCalls e config). evItem ev = None"
    using probeCalls_events by blast
  have E: "calls (rejected_p1 e config st0) = probeCalls e config"
    "results (rejected_p1 e config st0) = results st0"
    "step (rejected_p1 e config st0) = step st0"
    "authError (rejected_p1 e config st0) = connectionFailed_p1"
    "calls (rejected_p0 e config st0) = probeCalls e config"
    "updates (rejected_p0 e config st0) = []"
    "step (rejected_p0 e config st0) = step st0"
    by (simp_all add: rejected_p1_def rejected_p0_def)
  from A B C D E show ?thesis by blast
qed

theorem probe_before_loop_witness:
  "\<not> probePasses expiredKeyEnv typedKeyConfig
   \<and> truthy (apiKey typedKeyConfig)
   \<and> startAnalysis_p1 expiredKeyEnv typedKeyConfig fiveTickets opened
       = Inr (rejected_p1 expiredKeyEnv typedKeyConfig opened)
   \<and> startAnalysis_modal expiredKeyEnv typedKeyConfig fiveTickets opened
       = Inr (rejected_p1 expiredKeyEnv typedKeyConfig opened)
   \<and> startAnalysis_p0 expiredKeyEnv typedKeyConfig fiveTickets opened
       = Inr (rejected_p0 expiredKeyEnv typedKeyConfig opened)
   \<and> calls (rejected_p1 expiredKeyEnv typedKeyConfig opened) = [KeyProbe ''typed-key'']
   \<and> results (rejected_p1 expiredKeyEnv typedKeyConfig opened) = []"
proof -
  have h1: "\<not> probePasses expiredKeyEnv typedKeyConfig" by code_simp
  have h2: "truthy (apiKey typedKeyConfig)" by code_simp
  have h3: "probeCalls expiredKeyEnv typedKeyConfig = [KeyProbe ''typed-key'']" by code_simp
  have h4: "results opened = []" by code_simp
  from probe_before_loop[of expiredKeyEnv typedKeyConfig fiveTickets opened] h1 h2 h3 h4
  show ?thesis by simp
qed

text \<open>
  The claim as stated fails in \<open>p0\<close>: with no key typed in and an environment key that the
  service turns down, no probe is made; the first ticket is fetched and sent to the model
  service, and only its 401 ends the run.
\<close>

theorem probe_skipped_counterexample:
  "\<not> probePasses expiredKeyEnv config0
   \<and> \<not> isl expiredKeyRun
   \<and> calls (projr expiredKeyRun)
       = [HistoryCall 0 1, AnalysisCall 0 1, ProviderCall 0 ''expired'' ''gemini-2.5-flash'']
   \<and> length (updates (projr expiredKeyRun)) = 1
   \<and> authError (projr expiredKeyRun) = authBanner_p0"
  by code_simp





text \<open>
  \<^bold>\<open>C7\<close>, as the code has it. Let no item of the run be fatal and Stop not be pressed, and
  let item \<open>k\<close> fail (so with a failure that is neither an auth nor a rate-limit signal).
  Then the result made up for item \<open>k\<close> stands at place \<open>k\<close>, with the ticket's id and with
  the failure message as its error, or "Unknown error" where the message is empty or
  missing; the iteration sets \<open>progress\<close> to \<open>k + 1\<close> and, in \<open>p0\<close>, adds one to \<open>errorCount\<close>
  and nothing to \<open>processedCount\<close>; the run goes through all its items, which are all \<open>N\<close>
  tickets in \<open>p0\<close> and the first 50 in \<open>p1\<close>, and hands out as many results.
\<close>

theorem recoverable_failure_continues:
  assumes enter: "entersLoop_p0 e config"
    and all: "reaches (fatalAt e config tickets) e (length tickets)"
    and k: "k < length tickets"
    and fail: "outcome e config tickets k = Inl err"
    and enter': "probePasses e' config'"
    and all': "reaches (fatalAt e' config' (take 50 tickets')) e' (length (take 50 tickets'))"
    and k': "k' < length (take 50 tickets')"
    and fail': "outcome e' config' (take 50 tickets') k' = Inl err'"
  shows "(\<exists>st. startAnalysis_p0 e config tickets st0 = Inr st
           \<and> length (updates st) = length tickets
           \<and> updates st ! k = failedResult_p0 (tickets ! k) err
           \<and> error (updates st ! k)
               = Some (if truthy (message err) then the (message err) else ''Unknown error'')
           \<and> AiAnalysisResult.ticketId (updates st ! k) = Ticket.ticketId (tickets ! k)
           \<and> progress st = length tickets \<and> step st = Complete \<and> authError st = [])
       \<and> (\<forall>s. processedCount (fst (iteration_p0 e config tickets k s)) = processedCount s
             \<and> errorCount (fst (iteration_p0 e config tickets k s)) = errorCount s + 1
             \<and> progress (fst (iteration_p0 e config tickets k s)) = k + 1)
       \<and> (\<exists>st. startAnalysis_p1 e' config' tickets' st0' = Inr st
           \<and> length (results st) = min 50 (length tickets')
           \<and> results st ! k' = failedResult_p1 (tickets' ! k') err'
           \<and> error (results st ! k')
               = Some (if truthy (message err') then the (message err') else ''Unknown error'')
           \<and> AiAnalysisResult.ticketId (results st ! k') = Ticket.ticketId (tickets' ! k')
           \<and> progress st = min 50 (length tickets') \<and> step st = Results \<and> authError st = [])"
proof -
  from all k have nf: "\<not> fatalAt e config tickets k"
    by (simp add: reaches_def)
  with fail have rec: "\<not> isAuthError err" "\<not> isRateLimit err"
    by (simp_all add: fatalAt_def)
  from run_completes_p0[OF enter all, of st0] obtain st where
    run: "startAnalysis_p0 e config tickets st0 = Inr st"
    and u: "updates st = map (emitted_p0 e config tickets) [0..<length tickets]"
    and s: "step st = Complete" "progress st = length tickets" "authError st = []"
    by blast
  have em: "emitted_p0 e config tickets k = failedResult_p0 (tickets ! k) err"
    using fail rec by (simp add: emitted_p0_def)
  have 1: "length (updates st) = length tickets" using u by simp
  have 2: "updates st ! k = failedResult_p0 (tickets ! k) err"
    using u k em by simp
  have 3: "error (updates st ! k)
               = Some (if truthy (message err) then the (message err) else ''Unknown error'')"
    "AiAnalysisResult.ticketId (updates st ! k) = Ticket.ticketId (tickets ! k)"
    by (simp_all add: 2 failedResult_p0_def messageOrUnknown_def)
  have P0: "\<exists>st. startAnalysis_p0 e config tickets st0 = Inr st
           \<and> length (updates st) = length tickets
           \<and> updates st ! k = failedResult_p0 (tickets ! k) err
           \<and> error (updates st ! k)
               = Some (if truthy (message err) then the (message err) else ''Unknown error'')
           \<and> AiAnalysisResult.ticketId (updates st ! k) = Ticket.ticketId (tickets ! k)
           \<and> progress st = length tickets \<and> step st = Complete \<and> authError st = []"
    using run 1 2 3 s by blast
  have C: "\<forall>s. processedCount (fst (iteration_p0 e config tickets k s)) = processedCount s
             \<and> errorCount (fst (iteration_p0 e config tickets k s)) = errorCount s + 1
             \<and> progress (fst (iteration_p0 e config tickets k s)) = k + 1"
    using iteration_p0_failed[OF fail rec] by simp
  let ?ts = "take 50 tickets'"
  from all' k' have nf': "\<not> fatalAt e' config' ?ts k'"
    by (simp add: reaches_def)
  with fail' have rec': "\<not> isAuthError err'" "\<not> isRateLimit err'"
    by (simp_all add: fatalAt_def)
  from run_completes_p1[OF enter' all', of st0'] obtain st' where
    run': "startAnalysis_p1 e' config' tickets' st0' = Inr st'"
    and u': "results st' = map (emitted_p1 e' config' ?ts) [0..<length ?ts]"
    and s': "step st' = Results" "progress st' = length ?ts" "authError st' = []"
    by blast
  have em': "emitted_p1 e' config' ?ts k' = failedResult_p1 (?ts ! k') err'"
    using fail' rec' by (simp add: emitted_p1_def)
  have tk: "?ts ! k' = tickets' ! k'" using k' by simp
  have len: "length ?ts = min 50 (length tickets')" by (simp add: min.commute)
  have 4: "length (results st') = min 50 (length tickets')" using u' len by simp
  have 5: "results st' ! k' = failedResult_p1 (tickets' ! k') err'"
    using u' k' em' tk by simp
  have 6: "error (results st' ! k')
               = Some (if truthy (message err') then the (message err') else ''Unknown error'')"
    "AiAnalysisResult.ticketId (results st' ! k') = Ticket.ticketId (tickets' ! k')"
    by (simp_all add: 5 failedResult_p1_def messageOrUnknown_def)
  have P1: "\<exists>st. startAnalysis_p1 e' config' tickets' st0' = Inr st
           \<and> length (results st) = min 50 (length tickets')
           \<and> results st ! k' = failedResult_p1 (tickets' ! k') err'
           \<and> error (results st ! k')
               = Some (if truthy (message err') then the (message err') else ''Unknown error'')
           \<and> AiAnalysisResult.ticketId (results st ! k') = Ticket.ticketId (tickets' ! k')
           \<and> progress st = min 50 (length tickets') \<and> step st = Results \<and> authError st = []"
    using run' 4 5 6 s' len by auto
  from P0 C P1 show ?thesis by blast
qed

theorem recoverable_failure_continues_witness:
  "entersLoop_p0 serverErrAtSecond config0
   \<and> reaches (fatalAt serverErrAtSecond config0 fiveTickets) serverErrAtSecond (length fiveTickets)
   \<and> 1 < length fiveTickets
   \<and> outcome serverErrAtSecond config0 fiveTickets 1 = Inl serverErr
   \<and> probePasses serverErrAtSecond config0
   \<and> reaches (fatalAt serverErrAtSecond config0 (take 50 fiveTickets)) serverErrAtSecond
        (length (take 50 fiveTickets))
   \<and> 1 < length (take 50 fiveTickets)
   \<and> outcome serverErrAtSecond config0 (take 50 fiveTickets) 1 = Inl serverErr
   \<and> (\<exists>st. startAnalysis_p0 serverErrAtSecond config0 fiveTickets opened = Inr st
         \<and> length (updates st) = 5 \<and> error (updates st ! 1) = Some ''Internal error'')
   \<and> (\<exists>st. startAnalysis_p1 serverErrAtSecond config0 fiveTickets opened = Inr st
         \<and> length (results st) = 5 \<and> error (results st ! 1) = Some ''Internal error'')"
proof -
  have h1: "entersLoop_p0 serverErrAtSecond config0" by code_simp
  have h2: "reaches (fatalAt serverErrAtSecond config0 fiveTickets) serverErrAtSecond (length fiveTickets)"
    by code_simp
  have h3: "1 < length fiveTickets" by code_simp
  have h4: "outcome serverErrAtSecond config0 fiveTickets 1 = Inl serverErr" by code_simp
  have g1: "probePasses serverErrAtSecond config0" by code_simp
  have g2: "reaches (fatalAt serverErrAtSecond config0 (take 50 fiveTickets)) serverErrAtSecond
        (length (take 50 fiveTickets))" by code_simp
  have g3: "1 < length (take 50 fiveTickets)" by code_simp
  have g4: "outcome serverErrAtSecond config0 (take 50 fiveTickets) 1 = Inl serverErr" by code_simp
  have l: "length fiveTickets = 5" by code_simp
  have m: "truthy (message serverErr)" "the (message serverErr) = ''Internal error''" by code_simp+
  from recoverable_failure_continues[OF h1 h2 h3 h4 g1 g2 g3 g4, of opened opened] l m
  have "(\<exists>st. startAnalysis_p0 serverErrAtSecond config0 fiveTickets opened = Inr st
         \<and> length (updates st) = 5 \<and> error (updates st ! 1) = Some ''Internal error'')
   \<and> (\<exists>st. startAnalysis_p1 serverErrAtSecond config0 fiveTickets opened = Inr st
         \<and> length (results st) = 5 \<and> error (results st ! 1) = Some ''Internal error'')"
    by auto
  with h1 h2 h3 h4 g1 g2 g3 g4 show ?thesis by blast
qed

text \<open>
  The claim as stated fails in three places: a failure with an empty message gets the error
  "Unknown error"; \<open>processedCount\<close> counts the one success, not the failure; and of 51
  tickets \<open>p1\<close> processes 50.
\<close>

theorem recoverable_failure_counterexample:
  "\<not> isAuthError silentErr \<and> \<not> isRateLimit silentErr \<and> message silentErr = Some []
   \<and> \<not> isl silentFirstRun
   \<and> length (updates (projr silentFirstRun)) = 2
   \<and> error (updates (projr silentFirstRun) ! 0) = Some ''Unknown error''
   \<and> processedCount (projr silentFirstRun) = 1
   \<and> errorCount (projr silentFirstRun) = 1
   \<and> length manyTickets = 51
   \<and> \<not> isl manyRun_p1
   \<and> length (results (projr manyRun_p1)) = 50"
  by code_simp



text \<open>
  \<^bold>\<open>C9.\<close> An explicit key passed to \<open>validateApiKey\<close> or \<open>analyzeTicket\<close> is normalised before
  it is used: the surrounding whitespace is trimmed and one leading and one trailing quote
  character (single or double) are stripped. The only key either function sends to the
  model service is the normalised one (and none is sent when nothing is left of it). With
  no explicit key and no key in the environment, \<open>validateApiKey\<close> returns false and
  \<open>analyzeTicket\<close> fails with the missing-key error, both without a call to the service.
  The normalisation is stated in the specification's words (\<open>spec_normalizeKey\<close>); the
  source's regular expression is \<open>stripQuotes\<close>.
\<close>

theorem key_normalized:
  "(k \<noteq> [] \<longrightarrow>
      fst (validateApiKey e (Some k)) = (if spec_normalizeKey k = [] then [] else [spec_normalizeKey k])
    \<and> fst (analyzeTicket e gen ticket hist m (Some k))
        = (if spec_normalizeKey k = [] then [] else [(spec_normalizeKey k, m)]))
   \<and> (\<not> truthy override \<and> \<not> truthy (API_KEY e) \<longrightarrow>
        validateApiKey e override = ([], Inr False)
      \<and> analyzeTicket e gen ticket hist m override = ([], Inl (Error missingKeyMessage)))"
  by (auto simp: validateApiKey_def analyzeTicket_def resolveKey_def Let_def spec_normalizeKey_def
      stripQuotes_spec split: option.splits)

theorem key_normalized_witness:
  "pastedKey \<noteq> [] \<and> spec_normalizeKey pastedKey = ''sk-123''
   \<and> fst (validateApiKey (envOf (only 0 goodItem)) (Some pastedKey)) = [''sk-123'']
   \<and> fst (analyzeTicket (envOf (only 0 goodItem)) GenEmpty (mkTicket 1) [] ''gemini-2.5-flash''
            (Some pastedKey)) = [(''sk-123'', ''gemini-2.5-flash'')]
   \<and> \<not> truthy (Some []) \<and> \<not> truthy (API_KEY ((envOf (only 0 goodItem))\<lparr>API_KEY := None\<rparr>))
   \<and> validateApiKey ((envOf (only 0 goodItem))\<lparr>API_KEY := None\<rparr>) (Some []) = ([], Inr False)
   \<and> analyzeTicket ((envOf (only 0 goodItem))\<lparr>API_KEY := None\<rparr>) GenEmpty (mkTicket 1) []
        ''gemini-2.5-flash'' (Some []) = ([], Inl (Error missingKeyMessage))"
proof -
  have n: "pastedKey \<noteq> []" by code_simp
  have v: "spec_normalizeKey pastedKey = ''sk-123''" by code_simp
  have t: "\<not> truthy (Some []) \<and> \<not> truthy (API_KEY ((envOf (only 0 goodItem))\<lparr>API_KEY := None\<rparr>))"
    by code_simp
  from key_normalized[of pastedKey "envOf (only 0 goodItem)" GenEmpty "mkTicket 1" "[]"
      "''gemini-2.5-flash''" "Some []"] n v
  have a: "fst (validateApiKey (envOf (only 0 goodItem)) (Some pastedKey)) = [''sk-123'']"
    "fst (analyzeTicket (envOf (only 0 goodItem)) GenEmpty (mkTicket 1) [] ''gemini-2.5-flash''
            (Some pastedKey)) = [(''sk-123'', ''gemini-2.5-flash'')]"
    by simp_all
  from key_normalized[of pastedKey "(envOf (only 0 goodItem))\<lparr>API_KEY := None\<rparr>" GenEmpty
      "mkTicket 1" "[]" "''gemini-2.5-flash''" "Some []"] t
  have b: "validateApiKey ((envOf (only 0 goodItem))\<lparr>API_KEY := None\<rparr>) (Some []) = ([], Inr False)"
    "analyzeTicket ((envOf (only 0 goodItem))\<lparr>API_KEY := None\<rparr>) GenEmpty (mkTicket 1) []
        ''gemini-2.5-flash'' (Some []) = ([], Inl (Error missingKeyMessage))"
    by simp_all
  from n v t a b show ?thesis by simp
qed



end
